theory Spec2Isabelle
  imports Main "HOL-Library.Word"
begin

section \<open>The YQ HTTP client: constants and data\<close>

text \<open>
  A \<^verbatim>\<open>time.Duration\<close> counts nanoseconds in a signed 64-bit integer. Every
  duration the client computes lies between 0 and 5 seconds, far from the range where the
  machine integer wraps, so durations are integers here.
\<close>

definition Millisecond :: int where
  "Millisecond = 1000000"

definition Second :: int where
  "Second = 1000 * Millisecond"

definition MaxRetryForSession :: nat where
  "MaxRetryForSession = 4"

definition TimeBetweenRetries :: int where
  "TimeBetweenRetries = 1000 * Millisecond"

definition DefaultUserAgent :: string where
  "DefaultUserAgent = ''Go YQ HTTP SDK''"

definition DefaultEndpoint :: string where
  "DefaultEndpoint = ''https://api.yandex-query.cloud.yandex.net''"

definition DefaultWebBaseURL :: string where
  "DefaultWebBaseURL = ''https://yq.cloud.yandex.ru''"

definition DefaultTokenPrefix :: string where
  "DefaultTokenPrefix = ''Bearer ''"

record ClientConfig =
  Token :: string
  Project :: string
  UserAgent :: string
  Endpoint :: string
  WebBaseURL :: string
  TokenPrefix :: string

text \<open>\<open>NewClient\<close>: the configuration the client keeps, with the defaults filled in.\<close>

definition NewClient :: "ClientConfig \<Rightarrow> ClientConfig" where
  "NewClient config =
     (let config = (if UserAgent config = [] then config\<lparr>UserAgent := DefaultUserAgent\<rparr>
                    else config);
          config = (if Endpoint config = [] then config\<lparr>Endpoint := DefaultEndpoint\<rparr>
                    else config);
          config = (if WebBaseURL config = [] then config\<lparr>WebBaseURL := DefaultWebBaseURL\<rparr>
                    else config);
          config = (if TokenPrefix config = [] then config\<lparr>TokenPrefix := DefaultTokenPrefix\<rparr>
                    else config)
      in config)"

subsection \<open>Dynamically typed values\<close>

text \<open>
  The value a \<^verbatim>\<open>time.Time\<close> holds after \<^verbatim>\<open>time.Parse\<close>: the civil
  date and time, the nanoseconds and the zone offset in seconds.
\<close>

record Time =
  year :: int
  month :: int
  day :: int
  hour :: int
  minute :: int
  second :: int
  nsec :: int
  zone_offset :: int

text \<open>
  What an \<^verbatim>\<open>interface{}\<close> of this package holds. A decoded JSON document is made
  of \<open>VNil\<close>, \<open>VBool\<close>, \<open>VFloat\<close>, \<open>VString\<close>, \<open>VList\<close>
  (\<^verbatim>\<open>[]interface{}\<close>) and \<open>VMap\<close> (\<^verbatim>\<open>map[string]interface{}\<close>, looked up
  with \<open>map_of\<close>). The decoder adds \<open>VTime\<close> and \<open>VTable\<close>
  (\<^verbatim>\<open>[][]interface{}\<close>, a dynamic type of its own). A \<^verbatim>\<open>float64\<close> is kept as
  its 64 bits: the client never computes with one, it only passes it on.
\<close>

datatype val =
    VNil
  | VBool bool
  | VFloat "64 word"
  | VString string
  | VTime Time
  | VList "val list"
  | VTable "val list list"
  | VMap "(string \<times> val) list"

text \<open>Indexing a map that may be nil: a missing key reads as nil.\<close>

definition index_map :: "(string \<times> val) list \<Rightarrow> string \<Rightarrow> val" where
  "index_map m k = (case map_of m k of None \<Rightarrow> VNil | Some v \<Rightarrow> v)"

subsection \<open>Errors\<close>

record YQError =
  Message :: string
  Status :: string
  Msg :: string
  Details :: val

text \<open>
  An \<^verbatim>\<open>error\<close> is one of: an error of the HTTP stack or of the context, known by
  its text; an error made by \<^verbatim>\<open>fmt.Errorf\<close>, with its formatted text; a
  \<^verbatim>\<open>*YQError\<close>.
\<close>

datatype error =
    ExternalError string
  | Errorf string
  | YQErr YQError

text \<open>
  The run-time panics of this package: a field read through a nil pointer, a failed type
  assertion, an index out of range. A call that does not come back with its value fails:
  it panics, or it returns an error.
\<close>

datatype panic = NilDereference | TypeAssertion | IndexOutOfRange

datatype failure = Panic panic | Error error

subsection \<open>Requests, responses and the transport\<close>

type_synonym Header = "string \<rightharpoonup> string"

text \<open>
  The body of a request is the JSON object \<^verbatim>\<open>json.Marshal\<close> wrote, kept by its
  content, or absent. The body of a response is kept as \<^verbatim>\<open>encoding/json\<close> reads it:
  \<open>None\<close> when no JSON value can be read from it, otherwise the value read.
\<close>

record Request =
  Method :: string
  URL :: string
  ReqHeader :: Header
  ReqBody :: "(string \<rightharpoonup> string) option"

record Response =
  StatusCode :: int
  Body :: "val option"

text \<open>
  The world a call of \<open>doRequest\<close> runs in. \<open>NewRequest\<close> is the error, if any, of
  \<^verbatim>\<open>http.NewRequestWithContext\<close> for a method and a URL; \<open>RoundTrip i req\<close> is
  what \<^verbatim>\<open>c.client.Do\<close> returns for the request of attempt \<open>i\<close>; \<open>CtxDone i d\<close> is
  \<open>Some e\<close> when the context is done before the timer of duration \<open>d\<close> of the wait after
  attempt \<open>i\<close> fires, with \<open>e\<close> the value of \<^verbatim>\<open>ctx.Err()\<close>.
\<close>

record transport =
  NewRequest :: "string \<Rightarrow> string \<Rightarrow> error option"
  RoundTrip :: "nat \<Rightarrow> Request \<Rightarrow> error + Response"
  CtxDone :: "nat \<Rightarrow> int \<Rightarrow> error option"

datatype event =
    Sent nat Request
  | Slept int
  | Interrupted int

section \<open>The request orchestrator\<close>

subsection \<open>doRequest\<close>

text \<open>
  The loop of \<open>doRequest\<close>, from attempt \<open>i\<close> on. The source declares \<^verbatim>\<open>err\<close> twice:
  once before the loop and once more in the loop's body, by
  \<^verbatim>\<open>req, err := http.NewRequestWithContext(...)\<close>. The assignment
  \<^verbatim>\<open>resp, err = c.client.Do(req)\<close> writes the variable of the body, so the one declared
  before the loop keeps its value through every iteration; it is the argument \<open>err\<close> here,
  and it is what the \<^verbatim>\<open>return nil, err\<close> after the loop reads. The last argument
  collects what the call did.
\<close>

function doRequest_loop ::
  "transport \<Rightarrow> string \<Rightarrow> string \<Rightarrow> Header \<Rightarrow> (string \<rightharpoonup> string) option \<Rightarrow>
   nat \<Rightarrow> error option \<Rightarrow> event list \<Rightarrow> (Response option \<times> error option) \<times> event list" where
  "doRequest_loop t method url headers body i err tr =
     (if i \<le> MaxRetryForSession then
        (case NewRequest t method url of
           Some err' \<Rightarrow> ((None, Some err'), tr)
         | None \<Rightarrow>
             (let req = \<lparr>Method = method, URL = url, ReqHeader = headers, ReqBody = body\<rparr> in
              case RoundTrip t i req of
                Inr resp \<Rightarrow> ((Some resp, None), tr @ [Sent i req])
              | Inl err' \<Rightarrow>
                  (let d = TimeBetweenRetries * (int i + 1) in
                   case CtxDone t i d of
                     Some cerr \<Rightarrow> ((None, Some cerr), tr @ [Sent i req, Interrupted d])
                   | None \<Rightarrow>
                       doRequest_loop t method url headers body (i + 1) err
                         (tr @ [Sent i req, Slept d]))))
      else ((None, err), tr))"
  by pat_completeness auto
termination
  by (relation "measure (\<lambda>(t, method, url, headers, body, i, err, tr). Suc MaxRetryForSession - i)")
     auto

declare doRequest_loop.simps [simp del]

definition doRequest ::
  "transport \<Rightarrow> string \<Rightarrow> string \<Rightarrow> Header \<Rightarrow> (string \<rightharpoonup> string) option \<Rightarrow>
   (Response option \<times> error option) \<times> event list" where
  "doRequest t method url headers body = doRequest_loop t method url headers body 0 None []"

text \<open>
  What a call leaves behind after \<open>k\<close> attempts, from attempt \<open>i\<close> on, that each failed
  in the transport and were each followed by their whole wait.
\<close>

definition failed_attempts :: "Request \<Rightarrow> nat \<Rightarrow> nat \<Rightarrow> event list" where
  "failed_attempts req i k =
     concat (map (\<lambda>j. [Sent j req, Slept (TimeBetweenRetries * (int j + 1))]) [i..<k])"

definition attempts :: "event list \<Rightarrow> nat" where
  "attempts tr = length (filter (\<lambda>e. case e of Sent i r \<Rightarrow> True | _ \<Rightarrow> False) tr)"

definition slept :: "event list \<Rightarrow> int list" where
  "slept tr = concat (map (\<lambda>e. case e of Slept d \<Rightarrow> [d] | _ \<Rightarrow> []) tr)"

text \<open>A transport that never gets a response and a context that is never cancelled.\<close>

definition unreachable :: transport where
  "unreachable =
     \<lparr>NewRequest = (\<lambda>method url. None),
      RoundTrip = (\<lambda>i req. Inl (ExternalError ''dial tcp: connection refused'')),
      CtxDone = (\<lambda>i d. None)\<rparr>"

text \<open>
  A transport whose first two attempts fail and whose third gets an HTTP 503, and one whose
  context is cancelled during the wait after the second failed attempt.
\<close>

definition flaky :: transport where
  "flaky =
     \<lparr>NewRequest = (\<lambda>method url. None),
      RoundTrip = (\<lambda>i req. if i < 2 then Inl (ExternalError ''EOF'')
                             else Inr \<lparr>StatusCode = 503, Body = None\<rparr>),
      CtxDone = (\<lambda>i d. None)\<rparr>"

definition cancelled_late :: transport where
  "cancelled_late =
     \<lparr>NewRequest = (\<lambda>method url. None),
      RoundTrip = (\<lambda>i req. Inl (ExternalError ''EOF'')),
      CtxDone = (\<lambda>i d. if i = 1 then Some (ExternalError ''context canceled'') else None)\<rparr>"

subsection \<open>Formatting\<close>

text \<open>\<^verbatim>\<open>strconv.Itoa\<close> and the verb \<^verbatim>\<open>%d\<close>: a decimal numeral, with a sign when negative.\<close>

definition digit_char :: "nat \<Rightarrow> char" where
  "digit_char n = ''0123456789'' ! n"

fun digits :: "nat \<Rightarrow> string" where
  "digits n = (if n < 10 then [digit_char n] else digits (n div 10) @ [digit_char (n mod 10)])"

declare digits.simps [simp del]

definition Itoa :: "int \<Rightarrow> string" where
  "Itoa i = (if i < 0 then CHR ''-'' # digits (nat (- i)) else digits (nat i))"

text \<open>
  The verb \<^verbatim>\<open>%v\<close> on an \<^verbatim>\<open>interface{}\<close>: a string prints as itself and nil as
  \<^verbatim>\<open><nil>\<close>. How \<^verbatim>\<open>fmt\<close> prints the other values is the parameter \<open>other\<close>.
\<close>

definition fmt_v :: "(val \<Rightarrow> string) \<Rightarrow> val \<Rightarrow> string" where
  "fmt_v other v = (case v of VString s \<Rightarrow> s | VNil \<Rightarrow> ''<nil>'' | _ \<Rightarrow> other v)"

subsection \<open>Headers, parameters and URLs\<close>

text \<open>
  \<^verbatim>\<open>http.Header.Set\<close> replaces the values of a key. It stores the key in its canonical
  capitalisation; the keys are written here as the source writes them, and are distinct
  either way.
\<close>

definition buildHeaders :: "ClientConfig \<Rightarrow> string \<Rightarrow> string \<Rightarrow> Header" where
  "buildHeaders c idempotencyKey requestID =
     (let headers = Map.empty;
          headers = headers(''Authorization'' \<mapsto> TokenPrefix c @ Token c);
          headers = (if idempotencyKey \<noteq> [] then headers(''Idempotency-Key'' \<mapsto> idempotencyKey)
                     else headers);
          headers = (if requestID \<noteq> [] then headers(''x-request-id'' \<mapsto> requestID)
                     else headers);
          headers = (if UserAgent c \<noteq> [] then headers(''User-Agent'' \<mapsto> UserAgent c)
                     else headers)
      in headers)"

definition buildParams :: "ClientConfig \<Rightarrow> (string \<rightharpoonup> string)" where
  "buildParams c =
     (let params = Map.empty
      in if Project c \<noteq> [] then params(''project'' \<mapsto> Project c) else params)"

definition composeAPIURL :: "ClientConfig \<Rightarrow> string \<Rightarrow> string" where
  "composeAPIURL c path = Endpoint c @ path"

subsection \<open>validateHTTPError\<close>

text \<open>
  \<^verbatim>\<open>json.NewDecoder(resp.Body).Decode(&body)\<close> with \<^verbatim>\<open>body\<close> a
  \<^verbatim>\<open>map[string]interface{}\<close>: the decoder fails when it reads no JSON value; a JSON
  object fills the map; \<^verbatim>\<open>null\<close> leaves the map nil without an error; any other
  JSON value is a type error.
\<close>

definition decode_map :: "val option \<Rightarrow> (string \<times> val) list option" where
  "decode_map b =
     (case b of
        None \<Rightarrow> None
      | Some (VMap m) \<Rightarrow> Some m
      | Some VNil \<Rightarrow> Some []
      | Some _ \<Rightarrow> None)"

definition validateHTTPError :: "(val \<Rightarrow> string) \<Rightarrow> Response \<Rightarrow> int \<Rightarrow> error option" where
  "validateHTTPError other resp expectedCode =
     (if StatusCode resp \<noteq> expectedCode then
        (case decode_map (Body resp) of
           Some body \<Rightarrow>
             Some (YQErr
               \<lparr>Message = ''Error occurred. http code='' @ Itoa (StatusCode resp)
                    @ '', status='' @ fmt_v other (index_map body ''status'')
                    @ '', msg='' @ fmt_v other (index_map body ''message'')
                    @ '', details='' @ fmt_v other (index_map body ''details''),
                Status = fmt_v other (index_map body ''status''),
                Msg = fmt_v other (index_map body ''message''),
                Details = index_map body ''details''\<rparr>)
         | None \<Rightarrow>
             Some (YQErr
               \<lparr>Message = ''Error occurred: '' @ Itoa (StatusCode resp),
                Status = [], Msg = [], Details = VNil\<rparr>))
      else None)"

subsection \<open>The request of each operation\<close>

definition CreateQuery_body ::
  "string \<Rightarrow> string \<Rightarrow> string \<Rightarrow> string \<Rightarrow> (string \<rightharpoonup> string)" where
  "CreateQuery_body queryText queryType name description =
     (let body = Map.empty;
          body = (if queryText \<noteq> [] then body(''text'' \<mapsto> queryText) else body);
          body = (if queryType \<noteq> [] then body(''type'' \<mapsto> queryType) else body);
          body = (if name \<noteq> [] then body(''name'' \<mapsto> name) else body);
          body = (if description \<noteq> [] then body(''description'' \<mapsto> description) else body)
      in body)"

text \<open>
  The public operations that send a request, with their arguments, and what each hands to
  \<open>doRequest\<close>. \<open>GetQueryResultSetPage\<close> fills \<^verbatim>\<open>params\<close> and then builds its URL
  without them.
\<close>

datatype call =
    CreateQuery string string string string string string
  | GetQueryStatus string string
  | GetQuery string string
  | StopQuery string string string
  | GetQueryResultSetPage string int int int bool string
  | GetOpenAPISpec

fun request_of :: "ClientConfig \<Rightarrow> call \<Rightarrow> Request" where
  "request_of c (CreateQuery queryText queryType name description idempotencyKey requestID) =
     \<lparr>Method = ''POST'', URL = composeAPIURL c ''/api/fq/v1/queries'',
      ReqHeader = (buildHeaders c idempotencyKey requestID)(''Content-Type'' \<mapsto> ''application/json''),
      ReqBody = Some (CreateQuery_body queryText queryType name description)\<rparr>"
| "request_of c (GetQueryStatus queryID requestID) =
     \<lparr>Method = ''GET'', URL = composeAPIURL c (''/api/fq/v1/queries/'' @ queryID @ ''/status''),
      ReqHeader = buildHeaders c [] requestID, ReqBody = None\<rparr>"
| "request_of c (GetQuery queryID requestID) =
     \<lparr>Method = ''GET'', URL = composeAPIURL c (''/api/fq/v1/queries/'' @ queryID),
      ReqHeader = buildHeaders c [] requestID, ReqBody = None\<rparr>"
| "request_of c (StopQuery queryID idempotencyKey requestID) =
     \<lparr>Method = ''POST'', URL = composeAPIURL c (''/api/fq/v1/queries/'' @ queryID @ ''/stop''),
      ReqHeader = buildHeaders c idempotencyKey requestID, ReqBody = None\<rparr>"
| "request_of c (GetQueryResultSetPage queryID resultSetIndex offset limit rawFormat requestID) =
     (let params = buildParams c;
          params = (if offset > 0 then params(''offset'' \<mapsto> Itoa offset) else params);
          params = (if limit > 0 then params(''limit'' \<mapsto> Itoa limit) else params);
          headers = buildHeaders c [] requestID; url = composeAPIURL c
            (''/api/fq/v1/queries/'' @ queryID @ ''/results/'' @ Itoa resultSetIndex)
      in \<lparr>Method = ''GET'', URL = url, ReqHeader = headers, ReqBody = None\<rparr>)"
| "request_of c GetOpenAPISpec =
     \<lparr>Method = ''GET'', URL = composeAPIURL c ''/resources/v1/openapi.yaml'',
      ReqHeader = Map.empty, ReqBody = None\<rparr>"

subsection \<open>StopQuery\<close>

text \<open>
  The function \<^verbatim>\<open>StopQuery\<close>, run on a transport (the name \<open>StopQuery\<close> is the
  operation above). Its request goes through \<open>doRequest\<close>. An error of \<open>doRequest\<close> is
  returned as it is. Otherwise \<^verbatim>\<open>defer resp.Body.Close()\<close> reads the response, which
  panics when \<open>doRequest\<close> came back with no response and no error; then the status is
  checked against \<^verbatim>\<open>http.StatusNoContent\<close>. \<open>Inl\<close> is a panic, \<open>Inr\<close> the error
  returned.
\<close>

definition run_StopQuery ::
  "(val \<Rightarrow> string) \<Rightarrow> transport \<Rightarrow> ClientConfig \<Rightarrow> string \<Rightarrow> string \<Rightarrow> string \<Rightarrow>
   panic + error option" where
  "run_StopQuery other t c queryID idempotencyKey requestID =
     (let req = request_of c (StopQuery queryID idempotencyKey requestID) in
      case fst (doRequest t (Method req) (URL req) (ReqHeader req) (ReqBody req)) of
        (resp, Some err) \<Rightarrow> Inr (Some err)
      | (None, None) \<Rightarrow> Inl NilDereference
      | (Some resp, None) \<Rightarrow> Inr (validateHTTPError other resp 204))"

subsection \<open>WaitQueryToComplete\<close>

text \<open>
  The world a call of \<open>WaitQueryToComplete\<close> runs in: \<open>Since n\<close> is what
  \<^verbatim>\<open>time.Since(startTime)\<close> reads at the top of iteration \<open>n\<close>; \<open>PollStatus n\<close> is
  how the \<open>n\<close>-th call of \<^verbatim>\<open>GetQueryStatus\<close> ends, with a status or with a failure;
  \<open>StopResult\<close> is how the call of \<^verbatim>\<open>StopQuery\<close> ends, with a panic (\<open>Inl\<close>) or
  with the error it returns (\<open>Inr\<close>); \<open>PollCtxDone n d\<close> is \<open>Some e\<close> when the context
  is done before the timer of duration \<open>d\<close> of iteration \<open>n\<close> fires.
\<close>

record poller =
  Since :: "nat \<Rightarrow> int"
  PollStatus :: "nat \<Rightarrow> failure + string"
  StopResult :: "panic + error option"
  PollCtxDone :: "nat \<Rightarrow> int \<Rightarrow> error option"

datatype wait_event =
    Polled
  | StopCalled
  | Delayed int
  | DelayInterrupted int

text \<open>
  The loop has no bound of its own, so it runs on fuel: \<open>None\<close> is a loop still running
  when the fuel is spent. \<open>n\<close> counts the iterations and \<open>delay\<close> is the variable of the
  source. The call ends with a status (\<open>Inr\<close>) or with a failure (\<open>Inl\<close>): an error it
  returns, or a panic of a call it makes, which nothing on the way recovers. What
  \<^verbatim>\<open>StopQuery\<close> returns is dropped; a panic of it is not.
\<close>

fun WaitQueryToComplete_loop ::
  "nat \<Rightarrow> poller \<Rightarrow> string \<Rightarrow> int \<Rightarrow> bool \<Rightarrow> nat \<Rightarrow> int \<Rightarrow> wait_event list \<Rightarrow>
   ((failure + string) \<times> wait_event list) option" where
  "WaitQueryToComplete_loop 0 w queryID executionTimeout stopOnTimeout n delay tr = None"
| "WaitQueryToComplete_loop (Suc fuel) w queryID executionTimeout stopOnTimeout n delay tr =
     (if executionTimeout > 0 \<and> Since w n > executionTimeout then
        (if stopOnTimeout then
           (case StopResult w of
              Inl p \<Rightarrow> Some (Inl (Panic p), tr @ [StopCalled])
            | Inr discarded \<Rightarrow>
                Some (Inl (Error (Errorf (''query '' @ queryID @ '' execution timeout''))),
                      tr @ [StopCalled]))
         else Some (Inl (Error (Errorf (''query '' @ queryID @ '' execution timeout''))), tr))
      else
        (case PollStatus w n of
           Inl f \<Rightarrow> Some (Inl f, tr @ [Polled])
         | Inr status \<Rightarrow>
             if status \<noteq> ''RUNNING'' \<and> status \<noteq> ''PENDING'' then
               Some (Inr status, tr @ [Polled])
             else
               (case PollCtxDone w n delay of
                  Some cerr \<Rightarrow> Some (Inl (Error cerr), tr @ [Polled, DelayInterrupted delay])
                | None \<Rightarrow>
                    (let delay' = delay * 2;
                         delay' = (if delay' > 2 * Second then 2 * Second else delay')
                     in WaitQueryToComplete_loop fuel w queryID executionTimeout stopOnTimeout
                          (n + 1) delay' (tr @ [Polled, Delayed delay])))))"

definition WaitQueryToComplete ::
  "nat \<Rightarrow> poller \<Rightarrow> string \<Rightarrow> int \<Rightarrow> bool \<Rightarrow> ((failure + string) \<times> wait_event list) option" where
  "WaitQueryToComplete fuel w queryID executionTimeout stopOnTimeout =
     WaitQueryToComplete_loop fuel w queryID executionTimeout stopOnTimeout
       0 (200 * Millisecond) []"

text \<open>The value of \<^verbatim>\<open>delay\<close> during iteration \<open>n\<close>, by the loop's own update.\<close>

fun poll_delay :: "nat \<Rightarrow> int" where
  "poll_delay 0 = 200 * Millisecond"
| "poll_delay (Suc n) =
     (let delay' = poll_delay n * 2 in if delay' > 2 * Second then 2 * Second else delay')"

text \<open>What a call leaves behind after iterations \<open>i\<close> to \<open>k - 1\<close> that each polled and slept.\<close>

definition polled_and_slept :: "nat \<Rightarrow> nat \<Rightarrow> wait_event list" where
  "polled_and_slept i k = concat (map (\<lambda>j. [Polled, Delayed (poll_delay j)]) [i..<k])"

definition polls :: "wait_event list \<Rightarrow> nat" where
  "polls tr = length (filter (\<lambda>e. e = Polled) tr)"

definition delays :: "wait_event list \<Rightarrow> int list" where
  "delays tr = concat (map (\<lambda>e. case e of Delayed d \<Rightarrow> [d] | _ \<Rightarrow> []) tr)"

definition running :: "string \<Rightarrow> bool" where
  "running status \<longleftrightarrow> status = ''RUNNING'' \<or> status = ''PENDING''"

text \<open>A backend that answers a scripted list of statuses, with a clock that stands still.\<close>

definition scripted :: "string list \<Rightarrow> poller" where
  "scripted sts =
     \<lparr>Since = (\<lambda>n. 0),
      PollStatus = (\<lambda>n. if n < length sts then Inr (sts ! n)
                          else Inl (Error (ExternalError ''script exhausted''))),
      StopResult = Inr None,
      PollCtxDone = (\<lambda>n d. None)\<rparr>"

text \<open>
  A backend whose query never leaves \<^verbatim>\<open>RUNNING\<close>, whose stop call returns an error,
  and whose clock has reached the sum of the delays slept so far at each check.
\<close>

definition stuck :: poller where
  "stuck =
     \<lparr>Since = (\<lambda>n. sum_list (map poll_delay [0..<n])),
      PollStatus = (\<lambda>n. Inr ''RUNNING''),
      StopResult = Inr (Some (ExternalError ''stop failed'')),
      PollCtxDone = (\<lambda>n d. None)\<rparr>"

subsection \<open>GetQueryResultSet\<close>

text \<open>
  \<open>FetchPage n offset limit\<close> is what the \<open>n\<close>-th call of
  \<^verbatim>\<open>GetQueryResultSetPage\<close> returns for that offset and limit. An offset is a machine
  integer that grows by 1000 for each page of 1000 rows held in memory, so it stays far
  from the range where it wraps, and is an integer here.
\<close>

record pager =
  FetchPage :: "nat \<Rightarrow> int \<Rightarrow> int \<Rightarrow> error + (string \<times> val) list"

datatype page_event = Fetched int int

fun GetQueryResultSet_loop ::
  "nat \<Rightarrow> pager \<Rightarrow> nat \<Rightarrow> int \<Rightarrow> int \<Rightarrow> val \<Rightarrow> val list \<Rightarrow> page_event list \<Rightarrow>
   ((error + val \<times> val list) \<times> page_event list) option" where
  "GetQueryResultSet_loop 0 p n offset limit columns rows tr = None"
| "GetQueryResultSet_loop (Suc fuel) p n offset limit columns rows tr =
     (case FetchPage p n offset limit of
        Inl err \<Rightarrow> Some (Inl err, tr @ [Fetched offset limit])
      | Inr part \<Rightarrow>
          (let columns = (if columns = VNil then index_map part ''columns'' else columns) in
           case index_map part ''rows'' of
             VList r \<Rightarrow>
               (let rows = rows @ r in
                if int (length r) \<noteq> limit then
                  Some (Inr (columns, rows), tr @ [Fetched offset limit])
                else
                  GetQueryResultSet_loop fuel p (n + 1) (offset + limit) limit columns rows
                    (tr @ [Fetched offset limit]))
           | _ \<Rightarrow> Some (Inl (Errorf ''unexpected rows format''), tr @ [Fetched offset limit])))"

section \<open>The result decoder\<close>

text \<open>
  The three functions of the standard library the decoder calls:
  \<^verbatim>\<open>base64.StdEncoding.DecodeString\<close>, \<^verbatim>\<open>strconv.ParseFloat(s, 64)\<close> and
  \<^verbatim>\<open>time.Parse(time.RFC3339, s)\<close>, each \<open>None\<close> where it returns an error.
\<close>

record stdlib =
  DecodeString :: "string \<Rightarrow> string option"
  ParseFloat :: "string \<Rightarrow> 64 word option"
  ParseRFC3339 :: "string \<Rightarrow> Time option"

record Results =
  rawResults :: "(string \<times> val) list"
  results :: "(string \<times> val) list option"

definition NewYQResults :: "(string \<times> val) list \<Rightarrow> Results" where
  "NewYQResults res = \<lparr>rawResults = res, results = None\<rparr>"

definition convertFromBase64 :: "stdlib \<Rightarrow> val \<Rightarrow> val" where
  "convertFromBase64 lib v =
     (case v of
        VString str \<Rightarrow> (case DecodeString lib str of None \<Rightarrow> v | Some decoded \<Rightarrow> VString decoded)
      | _ \<Rightarrow> v)"

definition convertFromFloat :: "stdlib \<Rightarrow> val \<Rightarrow> val" where
  "convertFromFloat lib v =
     (case v of
        VFloat f \<Rightarrow> VFloat f
      | VString s \<Rightarrow> (case ParseFloat lib s of None \<Rightarrow> v | Some f \<Rightarrow> VFloat f)
      | _ \<Rightarrow> v)"

definition convertFromDatetime :: "stdlib \<Rightarrow> val \<Rightarrow> val" where
  "convertFromDatetime lib v =
     (case v of
        VString str \<Rightarrow> (case ParseRFC3339 lib str of None \<Rightarrow> v | Some t \<Rightarrow> VTime t)
      | _ \<Rightarrow> v)"

definition identity_types :: "string list" where
  "identity_types =
     [''Int8'', ''Int16'', ''Int32'', ''Int64'', ''Uint8'', ''Uint16'', ''Uint32'', ''Uint64'',
      ''Bool'', ''Utf8'', ''Uuid'', ''Void'', ''Null'', ''EmptyList'', ''Struct<>'', ''Tuple<>'']"

definition getConverter :: "stdlib \<Rightarrow> string \<Rightarrow> val \<Rightarrow> val" where
  "getConverter lib columnType =
     (if columnType \<in> set identity_types then (\<lambda>v. v)
      else if columnType = ''String'' then convertFromBase64 lib
      else if columnType = ''Float'' \<or> columnType = ''Double'' then convertFromFloat lib
      else if columnType = ''Date'' \<or> columnType = ''Datetime'' \<or> columnType = ''Timestamp''
        then convertFromDatetime lib
      else (\<lambda>v. v))"

text \<open>
  The first loop of \<open>convert\<close>: one converter for each column, a panic when a column is not
  a map or its \<^verbatim>\<open>type\<close> is not a string.
\<close>

fun column_converters :: "stdlib \<Rightarrow> val list \<Rightarrow> panic + (val \<Rightarrow> val) list" where
  "column_converters lib [] = Inr []"
| "column_converters lib (col # columns) =
     (case col of
        VMap m \<Rightarrow>
          (case index_map m ''type'' of
             VString colType \<Rightarrow>
               (case column_converters lib columns of
                  Inl p \<Rightarrow> Inl p
                | Inr converters \<Rightarrow> Inr (getConverter lib colType # converters))
           | _ \<Rightarrow> Inl TypeAssertion)
      | _ \<Rightarrow> Inl TypeAssertion)"

text \<open>
  The innermost loop: cell \<open>j\<close> of the row goes through converter \<open>j\<close> into slot \<open>j\<close> of a
  row made with one nil slot for each converter; a cell beyond the converters is an index
  out of range.
\<close>

fun fill_row :: "(val \<Rightarrow> val) list \<Rightarrow> nat \<Rightarrow> val list \<Rightarrow> val list \<Rightarrow> panic + val list" where
  "fill_row converters j [] convertedRow = Inr convertedRow"
| "fill_row converters j (v # row) convertedRow =
     (if j < length converters then
        fill_row converters (j + 1) row (convertedRow[j := (converters ! j) v])
      else Inl IndexOutOfRange)"

fun convert_rows :: "(val \<Rightarrow> val) list \<Rightarrow> val list \<Rightarrow> panic + val list list" where
  "convert_rows converters [] = Inr []"
| "convert_rows converters (row # rows) =
     (case row of
        VList cells \<Rightarrow>
          (case fill_row converters 0 cells (replicate (length converters) VNil) of
             Inl p \<Rightarrow> Inl p
           | Inr convertedRow \<Rightarrow>
               (case convert_rows converters rows of
                  Inl p \<Rightarrow> Inl p
                | Inr convertedRows \<Rightarrow> Inr (convertedRow # convertedRows)))
      | _ \<Rightarrow> Inl TypeAssertion)"

definition convert :: "stdlib \<Rightarrow> Results \<Rightarrow> panic + Results" where
  "convert lib r =
     (if results r \<noteq> None then Inr r
      else
        (case index_map (rawResults r) ''columns'' of
           VList columns \<Rightarrow>
             (case index_map (rawResults r) ''rows'' of
                VList rows \<Rightarrow>
                  (case column_converters lib columns of
                     Inl p \<Rightarrow> Inl p
                   | Inr converters \<Rightarrow>
                       (case convert_rows converters rows of
                          Inl p \<Rightarrow> Inl p
                        | Inr convertedRows \<Rightarrow>
                            Inr (r\<lparr>results :=
                                   Some [(''rows'', VTable convertedRows),
                                         (''columns'', VList columns)]\<rparr>)))
              | _ \<Rightarrow> Inl TypeAssertion)
         | _ \<Rightarrow> Inl TypeAssertion))"

text \<open>The accessors: each returns the instance as the call leaves it and the value returned.\<close>

definition Results_of :: "stdlib \<Rightarrow> Results \<Rightarrow> panic + Results \<times> (string \<times> val) list option" where
  "Results_of lib r = (case convert lib r of Inl p \<Rightarrow> Inl p | Inr r' \<Rightarrow> Inr (r', results r'))"



text \<open>
  \<open>GetQueryResultSet\<close>: the pages, then the raw document or its conversion. A panic of the
  decoder is \<open>Inl\<close>.
\<close>

definition GetQueryResultSet ::
  "nat \<Rightarrow> stdlib \<Rightarrow> pager \<Rightarrow> string \<Rightarrow> int \<Rightarrow> bool \<Rightarrow>
   ((panic + error + (string \<times> val) list option) \<times> page_event list) option" where
  "GetQueryResultSet fuel lib p queryID resultSetIndex rawFormat =
     (case GetQueryResultSet_loop fuel p 0 0 1000 VNil [] [] of
        None \<Rightarrow> None
      | Some (Inl err, tr) \<Rightarrow> Some (Inr (Inl err), tr)
      | Some (Inr (columns, rows), tr) \<Rightarrow>
          (let result = [(''rows'', VList rows), (''columns'', columns)] in
           if rawFormat then Some (Inr (Inr (Some result)), tr)
           else
             (case Results_of lib (NewYQResults result) of
                Inl p \<Rightarrow> Some (Inl p, tr)
              | Inr (r, d) \<Rightarrow> Some (Inr (Inr d), tr))))"

section \<open>Sample inputs\<close>

text \<open>
  A printer for the values \<^verbatim>\<open>%v\<close> is not spelled out for, used at concrete inputs:
  booleans by their names, anything else as a question mark.
\<close>

definition sample_fmt :: "val \<Rightarrow> string" where
  "sample_fmt v = (case v of VBool True \<Rightarrow> ''true'' | VBool False \<Rightarrow> ''false'' | _ \<Rightarrow> ''?'')"

definition sample_config :: ClientConfig where
  "sample_config =
     NewClient \<lparr>Token = ''t0k3n'', Project = ''p'', UserAgent = [], Endpoint = [],
                WebBaseURL = [], TokenPrefix = []\<rparr>"

text \<open>
  The same backend when the network is down by the time the query is to be stopped: the
  stop call is \<^verbatim>\<open>StopQuery\<close> run on the transport that never gets a response.
\<close>

definition stuck_offline :: poller where
  "stuck_offline =
     stuck\<lparr>StopResult := run_StopQuery sample_fmt unreachable sample_config ''q1'' [] []\<rparr>"

text \<open>The error \<open>validateHTTPError\<close> makes from the status code alone.\<close>

definition bare_error :: "int \<Rightarrow> error" where
  "bare_error code =
     YQErr \<lparr>Message = ''Error occurred: '' @ Itoa code, Status = [], Msg = [], Details = VNil\<rparr>"

text \<open>
  An HTTP 400 whose body is
  \<^verbatim>\<open>{"status":"BAD_REQUEST","message":"x","details":null}\<close>.
\<close>

definition bad_request :: Response where
  "bad_request =
     \<lparr>StatusCode = 400,
      Body = Some (VMap [(''status'', VString ''BAD_REQUEST''), (''message'', VString ''x''),
                         (''details'', VNil)])\<rparr>"

text \<open>
  A standard library known on three inputs, with what the Go functions return for them;
  it fails on every other input.
\<close>

definition sample_lib :: stdlib where
  "sample_lib =
     \<lparr>DecodeString = (\<lambda>s. if s = ''aGVsbG8='' then Some ''hello'' else None),
      ParseFloat = (\<lambda>s. if s = ''3.14'' then Some 0x40091EB851EB851F else None),
      ParseRFC3339 = (\<lambda>s. if s = ''2024-01-01T00:00:00Z''
         then Some \<lparr>year = 2024, month = 1, day = 1, hour = 0, minute = 0, second = 0,
                    nsec = 0, zone_offset = 0\<rparr>
         else None)\<rparr>"

text \<open>The rows of a page, when its \<^verbatim>\<open>rows\<close> is a \<^verbatim>\<open>[]interface{}\<close>.\<close>

definition has_rows :: "(string \<times> val) list \<Rightarrow> bool" where
  "has_rows part = (case index_map part ''rows'' of VList r \<Rightarrow> True | _ \<Rightarrow> False)"

definition rows_of :: "(string \<times> val) list \<Rightarrow> val list" where
  "rows_of part = (case index_map part ''rows'' of VList r \<Rightarrow> r | _ \<Rightarrow> [])"

text \<open>The first \<^verbatim>\<open>columns\<close> of a list of pages that is not nil; nil when there is none.\<close>

fun first_columns :: "(string \<times> val) list list \<Rightarrow> val" where
  "first_columns [] = VNil"
| "first_columns (part # parts) =
     (if index_map part ''columns'' = VNil then first_columns parts
      else index_map part ''columns'')"

text \<open>The calls for the pages \<open>i\<close> to \<open>k - 1\<close>, at 1000 rows a page.\<close>

definition fetched :: "nat \<Rightarrow> nat \<Rightarrow> page_event list" where
  "fetched i k = map (\<lambda>j. Fetched (1000 * int j) 1000) [i..<k]"

definition block :: "nat \<Rightarrow> val list" where
  "block n = replicate n (VList [VString ''aGVsbG8=''])"

definition one_column :: val where
  "one_column = VList [VMap [(''name'', VString ''c0''), (''type'', VString ''String'')]]"

text \<open>A backend that holds 2400 rows and serves the window asked for.\<close>

definition backend_2400 :: pager where
  "backend_2400 =
     \<lparr>FetchPage = (\<lambda>n offset limit.
        Inr [(''columns'', one_column),
             (''rows'', VList (block (nat (min limit (2400 - offset)))))])\<rparr>"

text \<open>
  A backend whose first page has 1000 rows and no \<^verbatim>\<open>columns\<close>, whose second page has
  1001 rows, and whose third page has 3.
\<close>

definition oversized :: pager where
  "oversized =
     \<lparr>FetchPage = (\<lambda>n offset limit.
        if n = 0 then Inr [(''rows'', VList (block 1000))]
        else if n = 1 then Inr [(''columns'', one_column), (''rows'', VList (block 1001))]
        else Inr [(''columns'', one_column), (''rows'', VList (block 3))])\<rparr>"

text \<open>The three pages \<open>backend_2400\<close> serves at 1000 rows a page.\<close>

definition pages_2400 :: "(string \<times> val) list list" where
  "pages_2400 =
     [[(''columns'', one_column), (''rows'', VList (block 1000))],
      [(''columns'', one_column), (''rows'', VList (block 1000))],
      [(''columns'', one_column), (''rows'', VList (block 400))]]"





section \<open>Properties of the request orchestrator\<close>

subsection \<open>doRequest\<close>

lemma loop_past_end:
  "\<not> i \<le> MaxRetryForSession \<Longrightarrow> doRequest_loop t m u h b i err tr = ((None, err), tr)"
  by (simp add: doRequest_loop.simps)

lemma loop_new_request_fails:
  "i \<le> MaxRetryForSession \<Longrightarrow> NewRequest t m u = Some e \<Longrightarrow>
   doRequest_loop t m u h b i err tr = ((None, Some e), tr)"
  by (simp add: doRequest_loop.simps)

lemma loop_response:
  "i \<le> MaxRetryForSession \<Longrightarrow> NewRequest t m u = None \<Longrightarrow>
   RoundTrip t i \<lparr>Method = m, URL = u, ReqHeader = h, ReqBody = b\<rparr> = Inr resp \<Longrightarrow>
   doRequest_loop t m u h b i err tr =
     ((Some resp, None), tr @ [Sent i \<lparr>Method = m, URL = u, ReqHeader = h, ReqBody = b\<rparr>])"
  by (simp add: doRequest_loop.simps)

lemma loop_cancelled:
  "i \<le> MaxRetryForSession \<Longrightarrow> NewRequest t m u = None \<Longrightarrow>
   RoundTrip t i \<lparr>Method = m, URL = u, ReqHeader = h, ReqBody = b\<rparr> = Inl e \<Longrightarrow>
   CtxDone t i (TimeBetweenRetries * (int i + 1)) = Some c \<Longrightarrow>
   doRequest_loop t m u h b i err tr =
     ((None, Some c), tr @ [Sent i \<lparr>Method = m, URL = u, ReqHeader = h, ReqBody = b\<rparr>,
        Interrupted (TimeBetweenRetries * (int i + 1))])"
  by (simp add: doRequest_loop.simps)

lemma loop_retry:
  "i \<le> MaxRetryForSession \<Longrightarrow> NewRequest t m u = None \<Longrightarrow>
   RoundTrip t i \<lparr>Method = m, URL = u, ReqHeader = h, ReqBody = b\<rparr> = Inl e \<Longrightarrow>
   CtxDone t i (TimeBetweenRetries * (int i + 1)) = None \<Longrightarrow>
   doRequest_loop t m u h b i err tr =
     doRequest_loop t m u h b (i + 1) err
       (tr @ [Sent i \<lparr>Method = m, URL = u, ReqHeader = h, ReqBody = b\<rparr>,
        Slept (TimeBetweenRetries * (int i + 1))])"
  by (subst doRequest_loop.simps) simp

lemma failed_attempts_step:
  "i < k \<Longrightarrow> failed_attempts req i k =
     [Sent i req, Slept (TimeBetweenRetries * (int i + 1))] @ failed_attempts req (Suc i) k"
  by (simp add: failed_attempts_def upt_conv_Cons)

lemma loop_skip_failed:
  assumes "NewRequest t m u = None" and "k \<le> Suc MaxRetryForSession"
    and "\<forall>j. i \<le> j \<and> j < k \<longrightarrow>
           (\<exists>e. RoundTrip t j \<lparr>Method = m, URL = u, ReqHeader = h, ReqBody = b\<rparr> = Inl e) \<and>
           CtxDone t j (TimeBetweenRetries * (int j + 1)) = None"
    and "i \<le> k"
  shows "doRequest_loop t m u h b i err tr =
         doRequest_loop t m u h b k err
           (tr @ failed_attempts \<lparr>Method = m, URL = u, ReqHeader = h, ReqBody = b\<rparr> i k)"
  using assms(3,4)
proof (induction "k - i" arbitrary: i tr)
  case 0
  then show ?case by (simp add: failed_attempts_def)
next
  case (Suc n)
  then have lt: "i < k" and le: "i \<le> MaxRetryForSession" using assms(2) by auto
  from Suc.prems lt obtain e where
    e: "RoundTrip t i \<lparr>Method = m, URL = u, ReqHeader = h, ReqBody = b\<rparr> = Inl e"
    and c: "CtxDone t i (TimeBetweenRetries * (int i + 1)) = None"
    by auto
  have "n = k - Suc i" using Suc.hyps(2) by simp
  moreover have "\<forall>j. Suc i \<le> j \<and> j < k \<longrightarrow>
           (\<exists>e. RoundTrip t j \<lparr>Method = m, URL = u, ReqHeader = h, ReqBody = b\<rparr> = Inl e) \<and>
           CtxDone t j (TimeBetweenRetries * (int j + 1)) = None"
    using Suc.prems(1) by auto
  moreover have "Suc i \<le> k" using lt by simp
  ultimately have ih: "\<And>tr'. doRequest_loop t m u h b (Suc i) err tr' =
         doRequest_loop t m u h b k err
           (tr' @ failed_attempts \<lparr>Method = m, URL = u, ReqHeader = h, ReqBody = b\<rparr> (Suc i) k)"
    using Suc.hyps(1) by blast
  show ?case
    by (simp add: loop_retry [OF le assms(1) e c] ih failed_attempts_step [OF lt])
qed

lemma loop_attempts_bound:
  "attempts (snd (doRequest_loop t m u h b i err tr)) \<le> attempts tr + (Suc MaxRetryForSession - i)"
proof (induction t m u h b i err tr rule: doRequest_loop.induct)
  case (1 t meth url headers body i err tr)
  show ?case
  proof (cases "i \<le> MaxRetryForSession")
    case False
    then show ?thesis by (simp add: loop_past_end)
  next
    case le: True
    show ?thesis
    proof (cases "NewRequest t meth url")
      case (Some e)
      then show ?thesis using le by (simp add: loop_new_request_fails)
    next
      case None
      let ?req = "\<lparr>Method = meth, URL = url, ReqHeader = headers, ReqBody = body\<rparr>"
      show ?thesis
      proof (cases "RoundTrip t i ?req")
        case (Inr resp)
        then show ?thesis using le None by (simp add: loop_response attempts_def)
      next
        case (Inl e)
        show ?thesis
        proof (cases "CtxDone t i (TimeBetweenRetries * (int i + 1))")
          case (Some c)
          then show ?thesis using le None Inl by (simp add: loop_cancelled attempts_def)
        next
          case N: None
          have "attempts (snd (doRequest_loop t meth url headers body (i + 1) err
                  (tr @ [Sent i ?req, Slept (TimeBetweenRetries * (int i + 1))])))
                \<le> attempts (tr @ [Sent i ?req, Slept (TimeBetweenRetries * (int i + 1))])
                    + (Suc MaxRetryForSession - (i + 1))"
            using "1.IH" [OF le None refl Inl refl N] .
          then show ?thesis using le
            by (simp add: loop_retry [OF le None Inl N] attempts_def)
        qed
      qed
    qed
  qed
qed


lemma doRequest_exhausted:
  assumes "NewRequest t m u = None"
    and "\<forall>j\<le>MaxRetryForSession.
           (\<exists>e. RoundTrip t j \<lparr>Method = m, URL = u, ReqHeader = h, ReqBody = b\<rparr> = Inl e) \<and>
           CtxDone t j (TimeBetweenRetries * (int j + 1)) = None"
  shows "doRequest t m u h b =
         ((None, None),
          failed_attempts \<lparr>Method = m, URL = u, ReqHeader = h, ReqBody = b\<rparr> 0
            (Suc MaxRetryForSession))"
proof -
  have "doRequest_loop t m u h b 0 None [] =
        doRequest_loop t m u h b (Suc MaxRetryForSession) None
          ([] @ failed_attempts \<lparr>Method = m, URL = u, ReqHeader = h, ReqBody = b\<rparr> 0
                  (Suc MaxRetryForSession))"
    by (rule loop_skip_failed [OF assms(1)]) (use assms(2) in auto)
  then show ?thesis
    by (simp add: doRequest_def loop_past_end)
qed

lemma failed_attempts_5:
  "failed_attempts req 0 (Suc MaxRetryForSession) =
     [Sent 0 req, Slept (1 * Second), Sent 1 req, Slept (2 * Second), Sent 2 req,
      Slept (3 * Second), Sent 3 req, Slept (4 * Second), Sent 4 req, Slept (5 * Second)]"
  by (simp add: failed_attempts_def MaxRetryForSession_def TimeBetweenRetries_def Second_def
        upt_conv_Cons)

text \<open>
  Claim C1: when every attempt fails in the transport, \<open>doRequest\<close> should return, after
  its \<open>MaxRetryForSession + 1\<close> attempts, the error of the last attempt. The code does not:
  on a transport that refuses every connection, with a context that is never cancelled, it
  makes its five attempts, waits after each, and returns no response and no error, because
  the \<^verbatim>\<open>err\<close> it returns after the loop is not the one the loop's body assigns.
\<close>

theorem doRequest_exhausted_returns_no_error:
  "doRequest unreachable ''GET'' ''https://host/path'' Map.empty None =
     ((None, None),
      (let req = \<lparr>Method = ''GET'', URL = ''https://host/path'', ReqHeader = Map.empty,
                  ReqBody = None\<rparr>
       in [Sent 0 req, Slept (1 * Second), Sent 1 req, Slept (2 * Second), Sent 2 req,
           Slept (3 * Second), Sent 3 req, Slept (4 * Second), Sent 4 req, Slept (5 * Second)]))"
proof -
  have "doRequest unreachable ''GET'' ''https://host/path'' Map.empty None =
        ((None, None),
         failed_attempts \<lparr>Method = ''GET'', URL = ''https://host/path'', ReqHeader = Map.empty,
                  ReqBody = None\<rparr> 0 (Suc MaxRetryForSession))"
    by (rule doRequest_exhausted) (simp_all add: unreachable_def)
  then show ?thesis
    by (simp add: failed_attempts_5 Let_def)
qed

text \<open>
  Claim C2: \<open>doRequest\<close> retries only after a failure of the transport. Let the first \<open>k\<close>
  attempts (\<open>k \<le> MaxRetryForSession\<close>) fail in the transport with the context not
  cancelled during their waits. If attempt \<open>k\<close> gets a response, whatever its status code,
  that response is returned at once: the call made exactly the attempts \<open>0, \<dots>, k\<close>. If
  attempt \<open>k\<close> fails and the context is done during the wait that follows, the context's
  error is returned. The wait after the attempt numbered \<open>j + 1\<close> lasts \<open>j + 1\<close> seconds,
  so the waits between the five attempts are 1s, 2s, 3s and 4s, and no call makes more
  than \<open>MaxRetryForSession + 1 = 5\<close> attempts.
\<close>

theorem doRequest_retry_policy:
  assumes "NewRequest t m u = None"
    and "req = \<lparr>Method = m, URL = u, ReqHeader = h, ReqBody = b\<rparr>"
    and "k \<le> MaxRetryForSession"
    and "\<forall>j<k. (\<exists>e. RoundTrip t j req = Inl e) \<and>
                CtxDone t j (TimeBetweenRetries * (int j + 1)) = None"
  shows "(\<forall>resp. RoundTrip t k req = Inr resp \<longrightarrow>
            doRequest t m u h b = ((Some resp, None), failed_attempts req 0 k @ [Sent k req]))
       \<and> (\<forall>e c. RoundTrip t k req = Inl e \<and>
                 CtxDone t k (TimeBetweenRetries * (int k + 1)) = Some c \<longrightarrow>
            doRequest t m u h b =
              ((None, Some c),
               failed_attempts req 0 k @
                 [Sent k req, Interrupted (TimeBetweenRetries * (int k + 1))]))
       \<and> slept (failed_attempts req 0 k) = map (\<lambda>j. (int j + 1) * Second) [0..<k]
       \<and> attempts (snd (doRequest t m u h b)) \<le> MaxRetryForSession + 1
       \<and> MaxRetryForSession + 1 = 5
       \<and> map (\<lambda>j. (int j + 1) * Second) [0..<MaxRetryForSession] =
           [1 * Second, 2 * Second, 3 * Second, 4 * Second]"
proof -
  have skip: "doRequest t m u h b = doRequest_loop t m u h b k None (failed_attempts req 0 k)"
    using loop_skip_failed [OF assms(1), of k 0 h b None "[]"] assms(2,3,4)
    by (simp add: doRequest_def)
  have a: "\<forall>resp. RoundTrip t k req = Inr resp \<longrightarrow>
            doRequest t m u h b = ((Some resp, None), failed_attempts req 0 k @ [Sent k req])"
    using assms(1,2,3) by (simp add: skip loop_response)
  have b: "\<forall>e c. RoundTrip t k req = Inl e \<and>
                 CtxDone t k (TimeBetweenRetries * (int k + 1)) = Some c \<longrightarrow>
            doRequest t m u h b =
              ((None, Some c),
               failed_attempts req 0 k @
                 [Sent k req, Interrupted (TimeBetweenRetries * (int k + 1))])"
    using assms(1,2,3) by (auto simp add: skip loop_cancelled)
  have c: "slept (failed_attempts req 0 k) = map (\<lambda>j. (int j + 1) * Second) [0..<k]"
    by (induction k)
       (simp_all add: slept_def failed_attempts_def TimeBetweenRetries_def Second_def)
  have d: "attempts (snd (doRequest t m u h b)) \<le> MaxRetryForSession + 1"
    using loop_attempts_bound [of t m u h b 0 None "[]"]
    by (simp add: doRequest_def attempts_def)
  have e: "MaxRetryForSession + 1 = 5"
    by (simp add: MaxRetryForSession_def)
  have f: "map (\<lambda>j. (int j + 1) * Second) [0..<MaxRetryForSession] =
           [1 * Second, 2 * Second, 3 * Second, 4 * Second]"
    by (simp add: MaxRetryForSession_def upt_conv_Cons)
  from a b c d e f show ?thesis by blast
qed

theorem doRequest_retry_policy_witness:
  "doRequest flaky ''GET'' ''https://host/path'' Map.empty None =
     (let req = \<lparr>Method = ''GET'', URL = ''https://host/path'', ReqHeader = Map.empty,
                  ReqBody = None\<rparr>
      in ((Some \<lparr>StatusCode = 503, Body = None\<rparr>, None),
          [Sent 0 req, Slept (1 * Second), Sent 1 req, Slept (2 * Second), Sent 2 req]))
   \<and> doRequest cancelled_late ''GET'' ''https://host/path'' Map.empty None =
     (let req = \<lparr>Method = ''GET'', URL = ''https://host/path'', ReqHeader = Map.empty,
                  ReqBody = None\<rparr>
      in ((None, Some (ExternalError ''context canceled'')),
          [Sent 0 req, Slept (1 * Second), Sent 1 req, Interrupted (2 * Second)]))"
proof -
  let ?req = "\<lparr>Method = ''GET'', URL = ''https://host/path'', ReqHeader = Map.empty,
                  ReqBody = None\<rparr>"
  have two: "[0..<2] = [0, Suc 0]" by (simp add: upt_conv_Cons)
  have one: "[0..<1] = [0]" by simp
  have "doRequest flaky ''GET'' ''https://host/path'' Map.empty None =
          ((Some \<lparr>StatusCode = 503, Body = None\<rparr>, None), failed_attempts ?req 0 2 @ [Sent 2 ?req])"
    using doRequest_retry_policy [of flaky "''GET''" "''https://host/path''" ?req Map.empty None 2]
    by (simp add: flaky_def MaxRetryForSession_def)
  moreover have "doRequest cancelled_late ''GET'' ''https://host/path'' Map.empty None =
          ((None, Some (ExternalError ''context canceled'')),
           failed_attempts ?req 0 1 @ [Sent 1 ?req, Interrupted (TimeBetweenRetries * (int 1 + 1))])"
    using doRequest_retry_policy [of cancelled_late "''GET''" "''https://host/path''" ?req Map.empty None 1]
    by (simp add: cancelled_late_def MaxRetryForSession_def)
  ultimately show ?thesis
    by (simp add: failed_attempts_def two TimeBetweenRetries_def Second_def Let_def)
qed

subsection \<open>The requests of the operations\<close>

lemma buildHeaders_Authorization:
  "buildHeaders c idempotencyKey requestID ''Authorization'' = Some (TokenPrefix c @ Token c)"
  by (simp add: buildHeaders_def Let_def)

lemma buildHeaders_nonempty: "buildHeaders c idempotencyKey requestID \<noteq> Map.empty"
  using buildHeaders_Authorization [of c idempotencyKey requestID] by (metis option.distinct(1))

text \<open>
  \<open>GetQueryResultSetPage\<close> hands \<open>doRequest\<close> the same request for every offset and
  limit: the parameters it collects do not reach the URL.
\<close>

lemma GetQueryResultSetPage_request_ignores_window:
  "request_of c (GetQueryResultSetPage queryID resultSetIndex offset limit rawFormat requestID) =
   request_of c (GetQueryResultSetPage queryID resultSetIndex offset' limit' rawFormat requestID)"
  by (simp add: Let_def)

text \<open>
  Claim C10: \<open>GetOpenAPISpec\<close> is the only operation whose request goes to \<open>doRequest\<close>
  with no headers: it passes nil where every other operation passes the result of
  \<open>buildHeaders\<close>. Its request has no header at all, so neither \<^verbatim>\<open>Authorization\<close>
  nor \<^verbatim>\<open>User-Agent\<close>, and no body; the request of every other operation carries the
  \<^verbatim>\<open>Authorization\<close> header with the prefixed token, and the \<^verbatim>\<open>User-Agent\<close>
  header when the configured one is not empty, as it is in every client \<open>NewClient\<close>
  makes. The operations that are not a \<open>call\<close> send their requests through these, or
  send none.
\<close>

theorem GetOpenAPISpec_sends_no_headers:
  "ReqHeader (request_of c GetOpenAPISpec) = Map.empty
   \<and> (\<forall>k. ReqHeader (request_of c GetOpenAPISpec) k = None)
   \<and> ReqBody (request_of c GetOpenAPISpec) = None
   \<and> URL (request_of c GetOpenAPISpec) = Endpoint c @ ''/resources/v1/openapi.yaml''
   \<and> (ReqHeader (request_of c op) = Map.empty \<longleftrightarrow> op = GetOpenAPISpec)
   \<and> (op \<noteq> GetOpenAPISpec \<longrightarrow>
        ReqHeader (request_of c op) ''Authorization'' = Some (TokenPrefix c @ Token c))
   \<and> (op \<noteq> GetOpenAPISpec \<and> UserAgent c \<noteq> [] \<longrightarrow>
        ReqHeader (request_of c op) ''User-Agent'' = Some (UserAgent c))
   \<and> UserAgent (NewClient config) \<noteq> []"
proof -
  have dua: "UserAgent (NewClient config) \<noteq> []"
    by (simp add: NewClient_def Let_def DefaultUserAgent_def)
  have auth: "op \<noteq> GetOpenAPISpec \<Longrightarrow>
        ReqHeader (request_of c op) ''Authorization'' = Some (TokenPrefix c @ Token c)"
    by (cases op) (simp_all add: buildHeaders_Authorization Let_def)
  have ua: "op \<noteq> GetOpenAPISpec \<Longrightarrow> UserAgent c \<noteq> [] \<Longrightarrow>
        ReqHeader (request_of c op) ''User-Agent'' = Some (UserAgent c)"
    by (cases op) (simp_all add: buildHeaders_def Let_def)
  have only: "ReqHeader (request_of c op) = Map.empty \<longleftrightarrow> op = GetOpenAPISpec"
  proof
    assume e: "ReqHeader (request_of c op) = Map.empty"
    show "op = GetOpenAPISpec"
    proof (rule ccontr)
      assume "op \<noteq> GetOpenAPISpec"
      from auth [OF this] e show False by simp
    qed
  next
    assume "op = GetOpenAPISpec"
    then show "ReqHeader (request_of c op) = Map.empty" by simp
  qed
  show ?thesis using auth ua only dua by (simp add: composeAPIURL_def)
qed

theorem GetOpenAPISpec_sends_no_headers_witness:
  "ReqHeader (request_of sample_config GetOpenAPISpec) = Map.empty
   \<and> ReqHeader (request_of sample_config (GetQueryStatus ''q1'' [])) ''Authorization''
       = Some ''Bearer t0k3n''
   \<and> ReqHeader (request_of sample_config (GetQueryStatus ''q1'' [])) ''User-Agent''
       = Some ''Go YQ HTTP SDK''"
  using GetOpenAPISpec_sends_no_headers [of sample_config "GetQueryStatus ''q1'' []"]
  by (simp add: sample_config_def NewClient_def DefaultTokenPrefix_def DefaultUserAgent_def)

text \<open>
  Claim C9: the JSON body \<open>CreateQuery\<close> builds holds, under the keys \<^verbatim>\<open>text\<close>,
  \<^verbatim>\<open>type\<close>, \<^verbatim>\<open>name\<close> and \<^verbatim>\<open>description\<close>, exactly the arguments that are
  not empty: each such argument under its key, no key for an empty argument, no other key;
  and this map is the body of the request sent.
\<close>

theorem CreateQuery_body_fields:
  "CreateQuery_body queryText queryType name description =
     (\<lambda>k. if k = ''text'' \<and> queryText \<noteq> [] then Some queryText
          else if k = ''type'' \<and> queryType \<noteq> [] then Some queryType
          else if k = ''name'' \<and> name \<noteq> [] then Some name
          else if k = ''description'' \<and> description \<noteq> [] then Some description
          else None)
   \<and> dom (CreateQuery_body queryText queryType name description) =
       {k. k = ''text'' \<and> queryText \<noteq> [] \<or> k = ''type'' \<and> queryType \<noteq> [] \<or>
           k = ''name'' \<and> name \<noteq> [] \<or> k = ''description'' \<and> description \<noteq> []}
   \<and> ReqBody (request_of c (CreateQuery queryText queryType name description idempotencyKey requestID))
       = Some (CreateQuery_body queryText queryType name description)"
proof -
  have m: "CreateQuery_body queryText queryType name description =
     (\<lambda>k. if k = ''text'' \<and> queryText \<noteq> [] then Some queryText
          else if k = ''type'' \<and> queryType \<noteq> [] then Some queryType
          else if k = ''name'' \<and> name \<noteq> [] then Some name
          else if k = ''description'' \<and> description \<noteq> [] then Some description
          else None)"
    by (rule ext) (simp add: CreateQuery_body_def Let_def)
  have d: "dom (CreateQuery_body queryText queryType name description) =
       {k. k = ''text'' \<and> queryText \<noteq> [] \<or> k = ''type'' \<and> queryType \<noteq> [] \<or>
           k = ''name'' \<and> name \<noteq> [] \<or> k = ''description'' \<and> description \<noteq> []}"
    unfolding m by (auto simp: dom_def split: if_splits)
  show ?thesis using m d by simp
qed

theorem CreateQuery_body_fields_witness:
  "CreateQuery_body ''SELECT 1'' ''ANALYTICS'' ''n'' ''d'' ''text'' = Some ''SELECT 1''
   \<and> CreateQuery_body ''SELECT 1'' ''ANALYTICS'' ''n'' ''d'' ''type'' = Some ''ANALYTICS''
   \<and> CreateQuery_body ''SELECT 1'' ''ANALYTICS'' ''n'' ''d'' ''name'' = Some ''n''
   \<and> CreateQuery_body ''SELECT 1'' ''ANALYTICS'' ''n'' ''d'' ''description'' = Some ''d''
   \<and> CreateQuery_body ''SELECT 1'' [] ''n'' [] ''text'' = Some ''SELECT 1''
   \<and> CreateQuery_body ''SELECT 1'' [] ''n'' [] ''type'' = None
   \<and> CreateQuery_body ''SELECT 1'' [] ''n'' [] ''name'' = Some ''n''
   \<and> CreateQuery_body ''SELECT 1'' [] ''n'' [] ''description'' = None"
proof -
  have all4: "CreateQuery_body ''SELECT 1'' ''ANALYTICS'' ''n'' ''d'' k =
     (if k = ''text'' then Some ''SELECT 1'' else if k = ''type'' then Some ''ANALYTICS''
      else if k = ''name'' then Some ''n'' else if k = ''description'' then Some ''d''
      else None)" for k
    using CreateQuery_body_fields [of "''SELECT 1''" "''ANALYTICS''" "''n''" "''d''"]
    by simp
  have two: "CreateQuery_body ''SELECT 1'' [] ''n'' [] k =
     (if k = ''text'' then Some ''SELECT 1'' else if k = ''name'' then Some ''n'' else None)" for k
    using CreateQuery_body_fields [of "''SELECT 1''" "[]" "''n''" "[]"]
    by simp
  show ?thesis by (simp add: all4 two)
qed

subsection \<open>validateHTTPError\<close>

lemma Itoa_400: "Itoa 400 = ''400''"
  by (simp add: Itoa_def digits.simps [of 400] digits.simps [of 40] digits.simps [of 4] digit_char_def)

lemma decode_map_cases:
  "decode_map None = None"
  "decode_map (Some (VMap m)) = Some m"
  "decode_map (Some VNil) = Some []"
  "v \<noteq> VNil \<Longrightarrow> \<forall>m. v \<noteq> VMap m \<Longrightarrow> decode_map (Some v) = None"
  by (simp_all add: decode_map_def split: val.splits)

text \<open>
  Claim C8 says that a response with an unexpected status and a body that is parseable JSON
  gives an error carrying the body's \<^verbatim>\<open>status\<close>, \<^verbatim>\<open>message\<close> and
  \<^verbatim>\<open>details\<close>. The body \<^verbatim>\<open>[]\<close> is parseable JSON, and the error made for it is
  the one made from the status code alone: the body is decoded into a map, which only a
  JSON object or \<^verbatim>\<open>null\<close> fits.
\<close>

theorem validateHTTPError_json_array_counterexample:
  "Body \<lparr>StatusCode = 400, Body = Some (VList [])\<rparr> = Some (VList [])
   \<and> validateHTTPError sample_fmt \<lparr>StatusCode = 400, Body = Some (VList [])\<rparr> 200 =
       Some (YQErr \<lparr>Message = ''Error occurred: 400'', Status = [], Msg = [], Details = VNil\<rparr>)"
  by (simp add: validateHTTPError_def decode_map_def Itoa_400)

text \<open>
  Claim C8, amended: a response with the expected status gives no error. Otherwise, when
  the body is a JSON object, the error's \<open>Status\<close> and \<open>Msg\<close> are the body's
  \<^verbatim>\<open>status\<close> and \<^verbatim>\<open>message\<close> fields as \<^verbatim>\<open>%v\<close> prints them (the strings
  themselves when the fields are strings) and its \<open>Details\<close> is the body's
  \<^verbatim>\<open>details\<close> field; a body \<^verbatim>\<open>null\<close> counts as an object with no fields;
  and when the body is not parseable JSON, or is a JSON value of another kind, the error is
  the one made from the status code alone.
\<close>

theorem validateHTTPError_cases:
  "(StatusCode resp = expectedCode \<longrightarrow> validateHTTPError other resp expectedCode = None)
   \<and> (StatusCode resp \<noteq> expectedCode \<longrightarrow>
        (\<forall>m. Body resp = Some (VMap m) \<longrightarrow>
           validateHTTPError other resp expectedCode =
             Some (YQErr
               \<lparr>Message = ''Error occurred. http code='' @ Itoa (StatusCode resp)
                    @ '', status='' @ fmt_v other (index_map m ''status'')
                    @ '', msg='' @ fmt_v other (index_map m ''message'')
                    @ '', details='' @ fmt_v other (index_map m ''details''),
                Status = fmt_v other (index_map m ''status''),
                Msg = fmt_v other (index_map m ''message''),
                Details = index_map m ''details''\<rparr>))
      \<and> (\<forall>m s x. Body resp = Some (VMap m) \<and> index_map m ''status'' = VString s \<and>
                  index_map m ''message'' = VString x \<longrightarrow>
           (\<exists>e. validateHTTPError other resp expectedCode = Some (YQErr e) \<and>
                Status e = s \<and> Msg e = x \<and> Details e = index_map m ''details''))
      \<and> (Body resp = Some VNil \<longrightarrow>
           (\<exists>e. validateHTTPError other resp expectedCode = Some (YQErr e) \<and>
                Status e = ''<nil>'' \<and> Msg e = ''<nil>'' \<and> Details e = VNil))
      \<and> (Body resp = None \<longrightarrow>
           validateHTTPError other resp expectedCode = Some (bare_error (StatusCode resp)))
      \<and> (\<forall>v. Body resp = Some v \<and> v \<noteq> VNil \<and> (\<forall>m. v \<noteq> VMap m) \<longrightarrow>
           validateHTTPError other resp expectedCode = Some (bare_error (StatusCode resp))))"
proof -
  have ok: "StatusCode resp = expectedCode \<Longrightarrow> validateHTTPError other resp expectedCode = None"
    by (simp add: validateHTTPError_def)
  have obj: "validateHTTPError other resp expectedCode =
             Some (YQErr
               \<lparr>Message = ''Error occurred. http code='' @ Itoa (StatusCode resp)
                    @ '', status='' @ fmt_v other (index_map m ''status'')
                    @ '', msg='' @ fmt_v other (index_map m ''message'')
                    @ '', details='' @ fmt_v other (index_map m ''details''),
                Status = fmt_v other (index_map m ''status''),
                Msg = fmt_v other (index_map m ''message''),
                Details = index_map m ''details''\<rparr>)"
    if "StatusCode resp \<noteq> expectedCode" "Body resp = Some (VMap m)" for m
    using that by (simp add: validateHTTPError_def decode_map_cases)
  have strs: "\<exists>e. validateHTTPError other resp expectedCode = Some (YQErr e) \<and>
                Status e = s \<and> Msg e = x \<and> Details e = index_map m ''details''"
    if "StatusCode resp \<noteq> expectedCode" "Body resp = Some (VMap m)"
       "index_map m ''status'' = VString s" "index_map m ''message'' = VString x" for m s x
    using obj [OF that(1,2)] that(3,4) by (simp add: fmt_v_def)
  have null: "\<exists>e. validateHTTPError other resp expectedCode = Some (YQErr e) \<and>
                Status e = ''<nil>'' \<and> Msg e = ''<nil>'' \<and> Details e = VNil"
    if "StatusCode resp \<noteq> expectedCode" "Body resp = Some VNil"
    using that by (simp add: validateHTTPError_def decode_map_cases index_map_def fmt_v_def)
  have none: "validateHTTPError other resp expectedCode = Some (bare_error (StatusCode resp))"
    if "StatusCode resp \<noteq> expectedCode" "Body resp = None"
    using that by (simp add: validateHTTPError_def decode_map_cases bare_error_def)
  have other: "validateHTTPError other resp expectedCode = Some (bare_error (StatusCode resp))"
    if "StatusCode resp \<noteq> expectedCode" "Body resp = Some v" "v \<noteq> VNil" "\<forall>m. v \<noteq> VMap m" for v
    using that by (simp add: validateHTTPError_def decode_map_cases bare_error_def)
  show ?thesis
    using ok obj strs null none other by blast
qed

theorem validateHTTPError_cases_witness:
  "validateHTTPError sample_fmt bad_request 200 =
     Some (YQErr
       \<lparr>Message = ''Error occurred. http code=400, status=BAD_REQUEST, msg=x, details=<nil>'',
        Status = ''BAD_REQUEST'', Msg = ''x'', Details = VNil\<rparr>)
   \<and> validateHTTPError sample_fmt bad_request 400 = None
   \<and> validateHTTPError sample_fmt \<lparr>StatusCode = 400, Body = None\<rparr> 200 =
       Some (YQErr \<lparr>Message = ''Error occurred: 400'', Status = [], Msg = [], Details = VNil\<rparr>)"
proof -
  have a: "validateHTTPError sample_fmt bad_request 200 =
     Some (YQErr
       \<lparr>Message = ''Error occurred. http code=400, status=BAD_REQUEST, msg=x, details=<nil>'',
        Status = ''BAD_REQUEST'', Msg = ''x'', Details = VNil\<rparr>)"
    using validateHTTPError_cases [of bad_request 200 sample_fmt]
    by (simp add: bad_request_def index_map_def fmt_v_def Itoa_400)
  have b: "validateHTTPError sample_fmt bad_request 400 = None"
    using validateHTTPError_cases [of bad_request 400 sample_fmt]
    by (simp add: bad_request_def)
  have c: "validateHTTPError sample_fmt \<lparr>StatusCode = 400, Body = None\<rparr> 200 =
       Some (YQErr \<lparr>Message = ''Error occurred: 400'', Status = [], Msg = [], Details = VNil\<rparr>)"
    using validateHTTPError_cases [of "\<lparr>StatusCode = 400, Body = None\<rparr>" 200 sample_fmt]
    by (simp add: bare_error_def Itoa_400)
  from a b c show ?thesis by simp
qed

subsection \<open>WaitQueryToComplete\<close>

lemma poll_delay_closed: "poll_delay j = min (200 * Millisecond * 2 ^ j) (2 * Second)"
proof (induction j)
  case 0
  show ?case by (simp add: Millisecond_def Second_def)
next
  case (Suc j)
  have pos: "(0::int) < 2 ^ j" by simp
  show ?case
    using pos by (simp add: Suc Let_def min_def Millisecond_def Second_def)
qed

lemma polled_and_slept_step:
  "i < k \<Longrightarrow> polled_and_slept i k = [Polled, Delayed (poll_delay i)] @ polled_and_slept (Suc i) k"
  by (simp add: polled_and_slept_def upt_conv_Cons)

lemma polled_and_slept_empty [simp]: "polled_and_slept k k = []"
  by (simp add: polled_and_slept_def)

lemma wait_loop_step:
  assumes "\<not> (0 < T \<and> T < Since w n)" and "PollStatus w n = Inr s" and "running s"
    and "PollCtxDone w n (poll_delay n) = None"
  shows "WaitQueryToComplete_loop (Suc fuel) w q T stop n (poll_delay n) tr =
         WaitQueryToComplete_loop fuel w q T stop (Suc n) (poll_delay (Suc n))
           (tr @ [Polled, Delayed (poll_delay n)])"
  using assms by (auto simp add: running_def Let_def)

lemma wait_loop_skip:
  assumes "\<forall>j. n \<le> j \<and> j < k \<longrightarrow>
             \<not> (0 < T \<and> T < Since w j) \<and> (\<exists>s. PollStatus w j = Inr s \<and> running s) \<and>
             PollCtxDone w j (poll_delay j) = None"
    and "n \<le> k"
  shows "WaitQueryToComplete_loop (fuel + (k - n)) w q T stop n (poll_delay n) tr =
         WaitQueryToComplete_loop fuel w q T stop k (poll_delay k) (tr @ polled_and_slept n k)"
  using assms
proof (induction "k - n" arbitrary: n tr)
  case 0
  then show ?case by simp
next
  case (Suc d)
  then have lt: "n < k" by simp
  from Suc.prems(1) lt obtain s where
    t: "\<not> (0 < T \<and> T < Since w n)" and s: "PollStatus w n = Inr s" "running s"
    and c: "PollCtxDone w n (poll_delay n) = None"
    by (metis le_refl)
  have d: "d = k - Suc n" using Suc.hyps(2) by simp
  have rest: "\<forall>j. Suc n \<le> j \<and> j < k \<longrightarrow>
             \<not> (0 < T \<and> T < Since w j) \<and> (\<exists>s. PollStatus w j = Inr s \<and> running s) \<and>
             PollCtxDone w j (poll_delay j) = None"
    using Suc.prems(1) by simp
  have ih: "WaitQueryToComplete_loop (fuel + (k - Suc n)) w q T stop (Suc n) (poll_delay (Suc n)) tr' =
         WaitQueryToComplete_loop fuel w q T stop k (poll_delay k) (tr' @ polled_and_slept (Suc n) k)"
    for tr'
    using Suc.hyps(1) [OF d rest] lt by simp
  have f: "fuel + (k - n) = Suc (fuel + (k - Suc n))" using lt by simp
  show ?case
    unfolding f wait_loop_step [OF t s c] ih
    by (simp add: polled_and_slept_step [OF lt])
qed

lemma wait_from_start:
  assumes "\<forall>j<k. \<not> (0 < T \<and> T < Since w j) \<and> (\<exists>s. PollStatus w j = Inr s \<and> running s) \<and>
             PollCtxDone w j (poll_delay j) = None"
    and "k < fuel"
  shows "WaitQueryToComplete fuel w q T stop =
         WaitQueryToComplete_loop (fuel - k) w q T stop k (poll_delay k) (polled_and_slept 0 k)"
proof -
  have "fuel = (fuel - k) + (k - 0)" using assms(2) by simp
  then have "WaitQueryToComplete fuel w q T stop =
        WaitQueryToComplete_loop ((fuel - k) + (k - 0)) w q T stop 0 (poll_delay 0) []"
    by (simp add: WaitQueryToComplete_def)
  also have "\<dots> = WaitQueryToComplete_loop (fuel - k) w q T stop k (poll_delay k)
                    ([] @ polled_and_slept 0 k)"
    by (rule wait_loop_skip) (use assms(1) in auto)
  finally show ?thesis by simp
qed

lemma wait_loop_ignores_stop_error:
  "WaitQueryToComplete_loop fuel (w\<lparr>StopResult := Inr x\<rparr>) q T stop n delay tr =
   WaitQueryToComplete_loop fuel (w\<lparr>StopResult := Inr y\<rparr>) q T stop n delay tr"
  by (induction fuel w q T stop n delay tr rule: WaitQueryToComplete_loop.induct)
     (simp_all add: Let_def split: sum.splits option.splits)

lemma wait_loop_ignores_clock:
  "T \<le> 0 \<Longrightarrow>
   WaitQueryToComplete_loop fuel (w\<lparr>Since := clock\<rparr>) q T stop n delay tr =
   WaitQueryToComplete_loop fuel w q T stop n delay tr"
  by (induction fuel w q T stop n delay tr rule: WaitQueryToComplete_loop.induct)
     (simp_all add: Let_def split: sum.splits option.splits)

lemma wait_loop_never_stops:
  "T \<le> 0 \<Longrightarrow> WaitQueryToComplete_loop fuel w q T stop n delay tr = Some (res, tr') \<Longrightarrow>
   StopCalled \<in> set tr' \<Longrightarrow> StopCalled \<in> set tr"
  by (induction fuel w q T stop n delay tr rule: WaitQueryToComplete_loop.induct)
     (auto simp add: Let_def split: sum.splits option.splits if_splits)

lemma wait_loop_failure_origin:
  "T \<le> 0 \<Longrightarrow> WaitQueryToComplete_loop fuel w q T stop n delay tr = Some (Inl f, tr') \<Longrightarrow>
   (\<exists>j. PollStatus w j = Inl f) \<or> (\<exists>j d e. PollCtxDone w j d = Some e \<and> f = Error e)"
  by (induction fuel w q T stop n delay tr rule: WaitQueryToComplete_loop.induct)
     (auto simp add: Let_def split: sum.splits option.splits if_splits)

lemma wait_loop_unbounded:
  assumes "T \<le> 0"
    and "\<forall>j. (\<exists>s. PollStatus w j = Inr s \<and> running s) \<and> PollCtxDone w j (poll_delay j) = None"
  shows "WaitQueryToComplete fuel w q T stop = None"
proof -
  have "WaitQueryToComplete_loop (0 + (fuel - 0)) w q T stop 0 (poll_delay 0) [] =
        WaitQueryToComplete_loop 0 w q T stop fuel (poll_delay fuel) ([] @ polled_and_slept 0 fuel)"
    by (rule wait_loop_skip) (use assms in auto)
  then show ?thesis by (simp add: WaitQueryToComplete_def)
qed

text \<open>
  Claim C4: let the polls answer the statuses \<open>sts\<close>, the first \<open>k\<close> of them
  \<^verbatim>\<open>RUNNING\<close> or \<^verbatim>\<open>PENDING\<close> and the one at index \<open>k\<close> neither, with no timeout
  observed and the context not cancelled on the way. Then \<open>WaitQueryToComplete\<close> returns
  the status at index \<open>k\<close> after exactly \<open>k + 1\<close> polls, one for each status up to that
  one. The delay slept after poll \<open>j\<close> is \<open>poll_delay j\<close>: 200ms at first, doubled after
  each poll and capped at 2s, that is \<open>min (200ms * 2 ^ j) 2s\<close>.
\<close>

theorem WaitQueryToComplete_first_terminal_status:
  assumes "k < length sts"
    and "\<forall>j\<le>k. PollStatus w j = Inr (sts ! j)"
    and "\<forall>j<k. running (sts ! j)"
    and "\<not> running (sts ! k)"
    and "\<forall>j\<le>k. \<not> (0 < T \<and> T < Since w j)"
    and "\<forall>j<k. PollCtxDone w j (poll_delay j) = None"
    and "k < fuel"
  shows "WaitQueryToComplete fuel w q T stop = Some (Inr (sts ! k), polled_and_slept 0 k @ [Polled])
       \<and> polls (polled_and_slept 0 k @ [Polled]) = k + 1
       \<and> delays (polled_and_slept 0 k @ [Polled]) = map poll_delay [0..<k]
       \<and> poll_delay 0 = 200 * Millisecond
       \<and> (\<forall>j. poll_delay (Suc j) = min (2 * poll_delay j) (2 * Second))
       \<and> (\<forall>j. poll_delay j = min (200 * Millisecond * 2 ^ j) (2 * Second))"
proof -
  have pre: "\<forall>j<k. \<not> (0 < T \<and> T < Since w j) \<and> (\<exists>s. PollStatus w j = Inr s \<and> running s) \<and>
             PollCtxDone w j (poll_delay j) = None"
    using assms(2,3,5,6) by auto
  obtain f where f: "fuel - k = Suc f"
    using assms(7) by (metis Suc_diff_Suc)
  have last: "\<not> (0 < T \<and> T < Since w k)" "PollStatus w k = Inr (sts ! k)"
    using assms(2,5) by auto
  have "WaitQueryToComplete fuel w q T stop =
        WaitQueryToComplete_loop (Suc f) w q T stop k (poll_delay k) (polled_and_slept 0 k)"
    using wait_from_start [OF pre assms(7)] f by simp
  also have "\<dots> = Some (Inr (sts ! k), polled_and_slept 0 k @ [Polled])"
    using last assms(4) by (auto simp add: running_def)
  finally have r: "WaitQueryToComplete fuel w q T stop =
        Some (Inr (sts ! k), polled_and_slept 0 k @ [Polled])" .
  have p: "polls (polled_and_slept 0 k @ [Polled]) = k + 1"
    by (induction k) (simp_all add: polls_def polled_and_slept_def)
  have d: "delays (polled_and_slept 0 k @ [Polled]) = map poll_delay [0..<k]"
    by (induction k) (simp_all add: delays_def polled_and_slept_def)
  have z: "poll_delay 0 = 200 * Millisecond" by simp
  have s: "\<forall>j. poll_delay (Suc j) = min (2 * poll_delay j) (2 * Second)"
    by (simp add: Let_def min_def)
  have c: "\<forall>j. poll_delay j = min (200 * Millisecond * 2 ^ j) (2 * Second)"
    by (simp add: poll_delay_closed)
  from r p d z s c show ?thesis by blast
qed

lemma upt_3: "[0..<2] = [0, Suc 0]"
  by (simp add: upt_conv_Cons)

theorem WaitQueryToComplete_first_terminal_status_witness:
  "WaitQueryToComplete 3 (scripted [''RUNNING'', ''RUNNING'', ''COMPLETED'']) ''q1'' 0 False =
     Some (Inr ''COMPLETED'',
           [Polled, Delayed (200 * Millisecond), Polled, Delayed (400 * Millisecond), Polled])
   \<and> polls [Polled, Delayed (200 * Millisecond), Polled, Delayed (400 * Millisecond), Polled] = 3"
proof -
  have two: "polled_and_slept 0 2 =
       [Polled, Delayed (200 * Millisecond), Polled, Delayed (400 * Millisecond)]"
    by (simp add: polled_and_slept_def upt_3 Let_def Millisecond_def Second_def)
  have all_le: "(\<forall>j\<le>2. P j) \<longleftrightarrow> P 0 \<and> P (Suc 0) \<and> P (2::nat)" for P
    by (metis One_nat_def le_0_eq le_Suc_eq numeral_2_eq_2)
  have all_lt: "(\<forall>j<2. P j) \<longleftrightarrow> P 0 \<and> P (Suc 0)" for P :: "nat \<Rightarrow> bool"
    by (metis One_nat_def less_2_cases_iff)
  show ?thesis
    using WaitQueryToComplete_first_terminal_status
      [of 2 "[''RUNNING'', ''RUNNING'', ''COMPLETED'']"
          "scripted [''RUNNING'', ''RUNNING'', ''COMPLETED'']" 0 3 "''q1''" False]
    by (simp add: all_le all_lt scripted_def running_def two)
qed

text \<open>
  What the timeout branch does. Let \<open>executionTimeout > 0\<close> and let the check at the top
  of iteration \<open>k\<close> be the first to read an elapsed time above it, every poll before it
  having answered \<^verbatim>\<open>RUNNING\<close> or \<^verbatim>\<open>PENDING\<close>. Without \<open>stopOnTimeout\<close> the call
  returns the timeout error and \<^verbatim>\<open>StopQuery\<close> is not called. With it,
  \<^verbatim>\<open>StopQuery\<close> is called, last: when that call returns, the timeout error is returned
  whatever it returned; when it panics, so does \<open>WaitQueryToComplete\<close>.
\<close>

lemma WaitQueryToComplete_timeout_cases:
  assumes "0 < T" and "T < Since w k" and "k < fuel"
    and pre: "\<forall>j<k. Since w j \<le> T \<and> (\<exists>s. PollStatus w j = Inr s \<and> running s) \<and>
              PollCtxDone w j (poll_delay j) = None"
  shows "WaitQueryToComplete fuel w q T False =
           Some (Inl (Error (Errorf (''query '' @ q @ '' execution timeout''))),
                 polled_and_slept 0 k)"
    and "StopResult w = Inr r \<Longrightarrow>
         WaitQueryToComplete fuel w q T True =
           Some (Inl (Error (Errorf (''query '' @ q @ '' execution timeout''))),
                 polled_and_slept 0 k @ [StopCalled])"
    and "StopResult w = Inl p \<Longrightarrow>
         WaitQueryToComplete fuel w q T True =
           Some (Inl (Panic p), polled_and_slept 0 k @ [StopCalled])"
proof -
  have pre': "\<forall>j<k. \<not> (0 < T \<and> T < Since w j) \<and> (\<exists>s. PollStatus w j = Inr s \<and> running s) \<and>
             PollCtxDone w j (poll_delay j) = None"
    using pre by auto
  obtain f where f: "fuel - k = Suc f"
    using assms(3) by (metis Suc_diff_Suc)
  have at_k: "WaitQueryToComplete fuel w q T stop =
        WaitQueryToComplete_loop (Suc f) w q T stop k (poll_delay k) (polled_and_slept 0 k)"
    for stop
    using wait_from_start [OF pre' assms(3)] f by simp
  show "WaitQueryToComplete fuel w q T False =
           Some (Inl (Error (Errorf (''query '' @ q @ '' execution timeout''))),
                 polled_and_slept 0 k)"
    using assms(1,2) by (simp add: at_k)
  show "WaitQueryToComplete fuel w q T True =
           Some (Inl (Error (Errorf (''query '' @ q @ '' execution timeout''))),
                 polled_and_slept 0 k @ [StopCalled])" if "StopResult w = Inr r"
    using assms(1,2) that by (simp add: at_k)
  show "WaitQueryToComplete fuel w q T True =
           Some (Inl (Panic p), polled_and_slept 0 k @ [StopCalled])" if "StopResult w = Inl p"
    using assms(1,2) that by (simp add: at_k)
qed

text \<open>
  With \<open>executionTimeout \<le> 0\<close>, so with zero, the timeout branch is never taken: the call
  does not depend on the clock, never calls \<^verbatim>\<open>StopQuery\<close>, fails only as a poll fails
  or with the error of the context, and is still polling after any number of iterations
  when the status never leaves \<^verbatim>\<open>RUNNING\<close> and \<^verbatim>\<open>PENDING\<close>.
\<close>

lemma WaitQueryToComplete_unbounded:
  assumes "T \<le> 0"
  shows "WaitQueryToComplete fuel (w\<lparr>Since := clock\<rparr>) q T stop =
         WaitQueryToComplete fuel w q T stop"
    and "WaitQueryToComplete fuel w q T stop = Some (res, tr) \<Longrightarrow> StopCalled \<notin> set tr"
    and "WaitQueryToComplete fuel w q T stop = Some (Inl f, tr) \<Longrightarrow>
         (\<exists>j. PollStatus w j = Inl f) \<or> (\<exists>j d e. PollCtxDone w j d = Some e \<and> f = Error e)"
    and "\<forall>j. (\<exists>s. PollStatus w j = Inr s \<and> running s) \<and>
             PollCtxDone w j (poll_delay j) = None \<Longrightarrow>
         WaitQueryToComplete fuel w q T stop = None"
proof -
  show "WaitQueryToComplete fuel (w\<lparr>Since := clock\<rparr>) q T stop =
        WaitQueryToComplete fuel w q T stop"
    using assms by (simp add: WaitQueryToComplete_def wait_loop_ignores_clock)
  show "StopCalled \<notin> set tr" if "WaitQueryToComplete fuel w q T stop = Some (res, tr)"
    using wait_loop_never_stops [OF assms, of fuel w q stop 0 "200 * Millisecond" "[]" res tr] that
    by (auto simp add: WaitQueryToComplete_def)
  show "(\<exists>j. PollStatus w j = Inl f) \<or> (\<exists>j d e. PollCtxDone w j d = Some e \<and> f = Error e)"
    if "WaitQueryToComplete fuel w q T stop = Some (Inl f, tr)"
    using wait_loop_failure_origin [OF assms, of fuel w q stop 0 "200 * Millisecond" "[]" f tr] that
    by (simp add: WaitQueryToComplete_def)
  show "WaitQueryToComplete fuel w q T stop = None"
    if "\<forall>j. (\<exists>s. PollStatus w j = Inr s \<and> running s) \<and>
             PollCtxDone w j (poll_delay j) = None"
    using wait_loop_unbounded [OF assms that] .
qed

text \<open>
  \<^verbatim>\<open>StopQuery\<close> on a transport whose five attempts all fail, with the context not
  cancelled: \<open>doRequest\<close> comes back with no response and no error, and the read of the
  response panics.
\<close>

lemma run_StopQuery_exhausted:
  assumes "req = request_of c (StopQuery queryID idempotencyKey requestID)"
    and "NewRequest t (Method req) (URL req) = None"
    and "\<forall>j\<le>MaxRetryForSession.
           (\<exists>e. RoundTrip t j req = Inl e) \<and>
           CtxDone t j (TimeBetweenRetries * (int j + 1)) = None"
  shows "run_StopQuery other t c queryID idempotencyKey requestID = Inl NilDereference"
proof -
  have r: "req = \<lparr>Method = Method req, URL = URL req, ReqHeader = ReqHeader req,
                  ReqBody = ReqBody req\<rparr>"
    by simp
  have "fst (doRequest t (Method req) (URL req) (ReqHeader req) (ReqBody req)) = (None, None)"
    using doRequest_exhausted [of t "Method req" "URL req" "ReqHeader req" "ReqBody req"]
      assms(2,3) r
    by simp
  then show ?thesis
    unfolding run_StopQuery_def assms(1) [symmetric] by (simp add: Let_def)
qed

lemma stuck_timeline:
  "0 < 1 * Second \<and> 1 * Second < Since stuck_offline 3 \<and>
   (\<forall>j<3. Since stuck_offline j \<le> 1 * Second \<and>
           (\<exists>s. PollStatus stuck_offline j = Inr s \<and> running s) \<and>
           PollCtxDone stuck_offline j (poll_delay j) = None)"
proof -
  have three: "[0..<3] = [0, Suc 0, Suc (Suc 0)]"
    by (simp add: upt_conv_Cons)
  have all_lt: "(\<forall>j<3. P j) \<longleftrightarrow> P 0 \<and> P (Suc 0) \<and> P (Suc (Suc 0))" for P :: "nat \<Rightarrow> bool"
    by (metis less_Suc_eq less_nat_zero_code numeral_3_eq_3)
  have clock: "Since stuck_offline 3 = 1400 * Millisecond" "Since stuck_offline 0 = 0"
    "Since stuck_offline (Suc 0) = 200 * Millisecond"
    "Since stuck_offline (Suc (Suc 0)) = 600 * Millisecond"
    by (simp_all add: stuck_offline_def stuck_def three Let_def Millisecond_def Second_def)
  show ?thesis
    unfolding all_lt clock
    by (simp add: stuck_offline_def stuck_def running_def Millisecond_def Second_def)
qed

text \<open>
  Claim C3: when the timeout is observed, \<open>WaitQueryToComplete\<close> should fail with the
  timeout error, calling \<^verbatim>\<open>StopQuery\<close> first when \<open>stopOnTimeout\<close> is set and dropping
  what that call gives. The code does not when the stop call cannot reach the service.
  Here the query is still \<^verbatim>\<open>RUNNING\<close> after three polls, the fourth check reads 1.4s
  against a timeout of 1s, \<open>stopOnTimeout\<close> is set, and every attempt of the stop request
  fails in the transport: \<^verbatim>\<open>StopQuery\<close> panics on the nil response that \<open>doRequest\<close>
  hands it, and \<open>WaitQueryToComplete\<close> ends in that panic, not in the timeout error.
\<close>

theorem WaitQueryToComplete_timeout_stop_panics:
  "run_StopQuery sample_fmt unreachable sample_config ''q1'' [] [] = Inl NilDereference
   \<and> StopResult stuck_offline = Inl NilDereference
   \<and> WaitQueryToComplete 4 stuck_offline ''q1'' (1 * Second) True =
       Some (Inl (Panic NilDereference),
             [Polled, Delayed (200 * Millisecond), Polled, Delayed (400 * Millisecond),
              Polled, Delayed (800 * Millisecond), StopCalled])"
proof -
  have off: "run_StopQuery sample_fmt unreachable sample_config ''q1'' [] [] = Inl NilDereference"
    by (rule run_StopQuery_exhausted [OF refl]) (simp_all add: unreachable_def)
  have stop: "StopResult stuck_offline = Inl NilDereference"
    by (simp add: stuck_offline_def off)
  have three: "[0..<3] = [0, Suc 0, Suc (Suc 0)]"
    by (simp add: upt_conv_Cons)
  have tr: "polled_and_slept 0 3 =
       [Polled, Delayed (200 * Millisecond), Polled, Delayed (400 * Millisecond),
        Polled, Delayed (800 * Millisecond)]"
    by (simp add: polled_and_slept_def three Let_def Millisecond_def Second_def)
  have "WaitQueryToComplete 4 stuck_offline ''q1'' (1 * Second) True =
        Some (Inl (Panic NilDereference), polled_and_slept 0 3 @ [StopCalled])"
    using stuck_timeline by (intro WaitQueryToComplete_timeout_cases(3) stop) simp_all
  then show ?thesis
    using off stop by (simp add: tr)
qed

text \<open>
  The same wait when the stop call returns an error, and without \<open>stopOnTimeout\<close>: the
  timeout error, after the stop call in the first case.
\<close>

lemma WaitQueryToComplete_timeout_example:
  "WaitQueryToComplete 4 stuck ''q1'' (1 * Second) True =
     Some (Inl (Error (Errorf ''query q1 execution timeout'')),
           polled_and_slept 0 3 @ [StopCalled])
   \<and> WaitQueryToComplete 4 stuck_offline ''q1'' (1 * Second) False =
     Some (Inl (Error (Errorf ''query q1 execution timeout'')), polled_and_slept 0 3)"
proof -
  have same: "Since stuck = Since stuck_offline" "PollStatus stuck = PollStatus stuck_offline"
    "PollCtxDone stuck = PollCtxDone stuck_offline"
    by (simp_all add: stuck_offline_def)
  have r: "StopResult stuck = Inr (Some (ExternalError ''stop failed''))"
    by (simp add: stuck_def)
  have a: "WaitQueryToComplete 4 stuck ''q1'' (1 * Second) True =
     Some (Inl (Error (Errorf (''query '' @ ''q1'' @ '' execution timeout''))),
           polled_and_slept 0 3 @ [StopCalled])"
    using stuck_timeline r
      WaitQueryToComplete_timeout_cases(2)
        [where T = "1 * Second" and w = stuck and k = 3 and fuel = 4 and q = "''q1''"]
    by (simp add: same)
  have b: "WaitQueryToComplete 4 stuck_offline ''q1'' (1 * Second) False =
     Some (Inl (Error (Errorf (''query '' @ ''q1'' @ '' execution timeout''))),
           polled_and_slept 0 3)"
    using stuck_timeline by (intro WaitQueryToComplete_timeout_cases(1)) simp_all
  from a b show ?thesis by simp
qed

subsection \<open>GetQueryResultSet\<close>

lemma has_rows_VList: "has_rows part \<Longrightarrow> index_map part ''rows'' = VList (rows_of part)"
  by (simp add: has_rows_def rows_of_def split: val.splits)

lemma first_columns_acc:
  "(if (if cols = VNil then index_map part ''columns'' else cols) = VNil
    then first_columns parts
    else (if cols = VNil then index_map part ''columns'' else cols)) =
   (if cols = VNil then first_columns (part # parts) else cols)"
  by simp

lemma page_loop_step:
  assumes "FetchPage p n offset limit = Inr part" and "has_rows part"
    and "int (length (rows_of part)) = limit"
  shows "GetQueryResultSet_loop (Suc fuel) p n offset limit cols rows tr =
         GetQueryResultSet_loop fuel p (Suc n) (offset + limit) limit
           (if cols = VNil then index_map part ''columns'' else cols) (rows @ rows_of part)
           (tr @ [Fetched offset limit])"
  using assms by (simp add: has_rows_VList Let_def)

lemma page_loop_last:
  assumes "FetchPage p n offset limit = Inr part" and "has_rows part"
    and "int (length (rows_of part)) \<noteq> limit"
  shows "GetQueryResultSet_loop (Suc fuel) p n offset limit cols rows tr =
         Some (Inr ((if cols = VNil then index_map part ''columns'' else cols), rows @ rows_of part),
               tr @ [Fetched offset limit])"
  using assms by (simp add: has_rows_VList Let_def)

lemma fetched_step: "i < k \<Longrightarrow> fetched i k = Fetched (1000 * int i) 1000 # fetched (Suc i) k"
  by (simp add: fetched_def upt_conv_Cons)

lemma page_loop_skip:
  assumes "\<forall>j. n \<le> j \<and> j < k \<longrightarrow>
             FetchPage p j (1000 * int j) 1000 = Inr (pages ! j) \<and> has_rows (pages ! j) \<and>
             length (rows_of (pages ! j)) = 1000"
    and "n \<le> k"
  shows "GetQueryResultSet_loop (fuel + (k - n)) p n (1000 * int n) 1000 cols rows tr =
         GetQueryResultSet_loop fuel p k (1000 * int k) 1000
           (if cols = VNil then first_columns (map ((!) pages) [n..<k]) else cols)
           (rows @ concat (map rows_of (map ((!) pages) [n..<k])))
           (tr @ fetched n k)"
  using assms
proof (induction "k - n" arbitrary: n cols rows tr)
  case 0
  then show ?case by (simp add: fetched_def)
next
  case (Suc d)
  then have lt: "n < k" by simp
  have here: "FetchPage p n (1000 * int n) 1000 = Inr (pages ! n)" "has_rows (pages ! n)"
    "int (length (rows_of (pages ! n))) = 1000"
    using Suc.prems(1) lt by auto
  have d: "d = k - Suc n" using Suc.hyps(2) by simp
  have rest: "\<forall>j. Suc n \<le> j \<and> j < k \<longrightarrow>
             FetchPage p j (1000 * int j) 1000 = Inr (pages ! j) \<and> has_rows (pages ! j) \<and>
             length (rows_of (pages ! j)) = 1000"
    using Suc.prems(1) by simp
  have ih: "GetQueryResultSet_loop (fuel + (k - Suc n)) p (Suc n) (1000 * int (Suc n)) 1000 cols' rows' tr' =
         GetQueryResultSet_loop fuel p k (1000 * int k) 1000
           (if cols' = VNil then first_columns (map ((!) pages) [Suc n..<k]) else cols')
           (rows' @ concat (map rows_of (map ((!) pages) [Suc n..<k])))
           (tr' @ fetched (Suc n) k)" for cols' rows' tr'
    using Suc.hyps(1) [OF d rest] lt by simp
  have f: "fuel + (k - n) = Suc (fuel + (k - Suc n))" using lt by simp
  have o: "1000 * int n + 1000 = 1000 * int (Suc n)" by simp
  have u: "[n..<k] = n # [Suc n..<k]" using lt by (simp add: upt_conv_Cons)
  show ?case
    unfolding f page_loop_step [OF here] o ih u
    by (simp add: fetched_step [OF lt, unfolded u])
qed

lemma map_nth_take: "k \<le> length xs \<Longrightarrow> map ((!) xs) [0..<k] = take k xs"
  by (metis map_nth take_map take_upt add_0)

lemma page_loop_result:
  assumes "k < length pages"
    and "\<forall>j\<le>k. FetchPage p j (1000 * int j) 1000 = Inr (pages ! j) \<and> has_rows (pages ! j)"
    and "\<forall>j<k. length (rows_of (pages ! j)) = 1000"
    and "length (rows_of (pages ! k)) \<noteq> 1000"
    and "k < fuel"
  shows "GetQueryResultSet_loop fuel p 0 0 1000 VNil [] [] =
         Some (Inr (first_columns (take (Suc k) pages),
                    concat (map rows_of (take (Suc k) pages))),
               fetched 0 (Suc k))"
proof -
  obtain f where f: "fuel = Suc f + (k - 0)"
    using assms(5) by (metis Suc_diff_Suc add_Suc diff_zero le_add_diff_inverse2 less_imp_le)
  have pre: "\<forall>j. 0 \<le> j \<and> j < k \<longrightarrow>
             FetchPage p j (1000 * int j) 1000 = Inr (pages ! j) \<and> has_rows (pages ! j) \<and>
             length (rows_of (pages ! j)) = 1000"
    using assms(2,3) by auto
  have last: "FetchPage p k (1000 * int k) 1000 = Inr (pages ! k)" "has_rows (pages ! k)"
    "int (length (rows_of (pages ! k))) \<noteq> 1000"
    using assms(2,4) by auto
  have tk: "take (Suc k) pages = map ((!) pages) [0..<k] @ [pages ! k]"
    using assms(1) by (simp add: take_Suc_conv_app_nth map_nth_take)
  have fc: "first_columns (xs @ [x]) =
         (if first_columns xs = VNil then index_map x ''columns'' else first_columns xs)" for xs x
    by (induction xs) simp_all
  have "GetQueryResultSet_loop fuel p 0 0 1000 VNil [] [] =
        GetQueryResultSet_loop (Suc f + (k - 0)) p 0 (1000 * int 0) 1000 VNil [] []"
    by (simp add: f)
  also have "\<dots> = GetQueryResultSet_loop (Suc f) p k (1000 * int k) 1000
           (if VNil = VNil then first_columns (map ((!) pages) [0..<k]) else VNil)
           ([] @ concat (map rows_of (map ((!) pages) [0..<k])))
           ([] @ fetched 0 k)"
    by (rule page_loop_skip [OF pre]) simp
  also have "\<dots> = Some (Inr (first_columns (take (Suc k) pages),
                    concat (map rows_of (take (Suc k) pages))),
               fetched 0 (Suc k))"
    unfolding page_loop_last [OF last]
    by (simp add: tk fc fetched_def)
  finally show ?thesis .
qed

lemma fill_row_length:
  "fill_row cs j cells row = Inr row' \<Longrightarrow> length row' = length row"
  by (induction cs j cells row arbitrary: row' rule: fill_row.induct)
     (auto split: if_splits)

lemma convert_rows_length:
  "convert_rows cs rows = Inr t \<Longrightarrow> length t = length rows"
  by (induction cs rows arbitrary: t rule: convert_rows.induct)
     (auto split: val.splits sum.splits)

lemma length_block [simp]: "length (block n) = n"
  by (simp add: block_def)

lemma converted_document:
  assumes "Results_of lib (NewYQResults [(''rows'', VList rows), (''columns'', cols)]) = Inr (r, d)"
  shows "\<exists>t. d = Some [(''rows'', VTable t), (''columns'', cols)] \<and> length t = length rows"
  using assms
  by (auto simp add: Results_of_def convert_def NewYQResults_def index_map_def
        dest: convert_rows_length split: val.splits sum.splits)

text \<open>
  Claim C5, amended: \<open>GetQueryResultSet\<close> calls the page operation with limit 1000 at the
  offsets 0, 1000, 2000, \<dots>, and stops after the first page whose number of rows is not
  1000, be it smaller or larger. Its rows are the rows of the fetched pages, in order; its
  columns are the first \<^verbatim>\<open>columns\<close> among the fetched pages that is not nil, so the
  columns of the first page when that page has any. With pages of 1000, 1000 and 400 rows
  it returns 2400 rows after three calls. In converted format the calls are the same and
  the table has as many rows.
\<close>

theorem GetQueryResultSet_pages:
  assumes "k < length pages"
    and "\<forall>j\<le>k. FetchPage p j (1000 * int j) 1000 = Inr (pages ! j) \<and> has_rows (pages ! j)"
    and "\<forall>j<k. length (rows_of (pages ! j)) = 1000"
    and "length (rows_of (pages ! k)) \<noteq> 1000"
    and "k < fuel"
  shows "GetQueryResultSet fuel lib p queryID resultSetIndex True =
           Some (Inr (Inr (Some [(''rows'', VList (concat (map rows_of (take (Suc k) pages)))),
                                 (''columns'', first_columns (take (Suc k) pages))])),
                 map (\<lambda>j. Fetched (1000 * int j) 1000) [0..<Suc k])
       \<and> map_option snd (GetQueryResultSet fuel lib p queryID resultSetIndex False) =
           Some (map (\<lambda>j. Fetched (1000 * int j) 1000) [0..<Suc k])
       \<and> (\<forall>d. map_option fst (GetQueryResultSet fuel lib p queryID resultSetIndex False) =
                Some (Inr (Inr d)) \<longrightarrow>
              (\<exists>t. d = Some [(''rows'', VTable t),
                             (''columns'', first_columns (take (Suc k) pages))] \<and>
                   length t = length (concat (map rows_of (take (Suc k) pages)))))
       \<and> length (concat (map rows_of (take (Suc k) pages))) =
           1000 * k + length (rows_of (pages ! k))
       \<and> (index_map (pages ! 0) ''columns'' \<noteq> VNil \<longrightarrow>
            first_columns (take (Suc k) pages) = index_map (pages ! 0) ''columns'')"
proof -
  let ?rows = "concat (map rows_of (take (Suc k) pages))"
  let ?cols = "first_columns (take (Suc k) pages)"
  have loop: "GetQueryResultSet_loop fuel p 0 0 1000 VNil [] [] =
              Some (Inr (?cols, ?rows), fetched 0 (Suc k))"
    by (rule page_loop_result [OF assms])
  have raw: "GetQueryResultSet fuel lib p queryID resultSetIndex True =
           Some (Inr (Inr (Some [(''rows'', VList ?rows), (''columns'', ?cols)])),
                 map (\<lambda>j. Fetched (1000 * int j) 1000) [0..<Suc k])"
    by (simp add: GetQueryResultSet_def loop fetched_def)
  have tr: "map_option snd (GetQueryResultSet fuel lib p queryID resultSetIndex False) =
           Some (map (\<lambda>j. Fetched (1000 * int j) 1000) [0..<Suc k])"
    by (simp add: GetQueryResultSet_def loop fetched_def split: sum.splits prod.splits)
  have conv: "\<exists>t. d = Some [(''rows'', VTable t), (''columns'', ?cols)] \<and> length t = length ?rows"
    if "map_option fst (GetQueryResultSet fuel lib p queryID resultSetIndex False) =
          Some (Inr (Inr d))" for d
    using that converted_document [of lib ?rows ?cols]
    by (auto simp add: GetQueryResultSet_def loop split: sum.splits prod.splits)
  have len_full: "length (concat (map rows_of (take j pages))) = 1000 * j" if "j \<le> k" for j
    using that
  proof (induction j)
    case 0
    show ?case by simp
  next
    case (Suc j)
    then have "j < k" "j < length pages" using assms(1) by auto
    then show ?case
      using Suc assms(3) by (simp add: take_Suc_conv_app_nth)
  qed
  have len: "length ?rows = 1000 * k + length (rows_of (pages ! k))"
    using assms(1) len_full [of k] by (simp add: take_Suc_conv_app_nth)
  have pos: "pages \<noteq> []" using assms(1) by auto
  have first: "?cols = index_map (pages ! 0) ''columns''"
    if "index_map (pages ! 0) ''columns'' \<noteq> VNil"
    using that pos by (cases pages) simp_all
  show ?thesis
    using raw tr conv len first by blast
qed

lemma one_column_not_nil [simp]: "one_column \<noteq> VNil"
  by (simp add: one_column_def)

theorem GetQueryResultSet_pages_witness:
  "GetQueryResultSet 3 sample_lib backend_2400 ''q1'' 0 True =
     Some (Inr (Inr (Some [(''rows'', VList (block 1000 @ block 1000 @ block 400)),
                           (''columns'', one_column)])),
           [Fetched 0 1000, Fetched 1000 1000, Fetched 2000 1000])
   \<and> length (block 1000 @ block 1000 @ block 400) = 2400"
proof -
  have all_le: "(\<forall>j\<le>2. P j) \<longleftrightarrow> P 0 \<and> P (Suc 0) \<and> P (2::nat)" for P
    by (metis One_nat_def le_0_eq le_Suc_eq numeral_2_eq_2)
  have all_lt: "(\<forall>j<2. P j) \<longleftrightarrow> P 0 \<and> P (Suc 0)" for P :: "nat \<Rightarrow> bool"
    by (metis One_nat_def less_2_cases_iff)
  have nth2: "pages_2400 ! 2 = [(''columns'', one_column), (''rows'', VList (block 400))]"
    by (simp add: pages_2400_def numeral_2_eq_2)
  have three: "[0..<3] = [0, Suc 0, 2]"
    by (simp add: upt_conv_Cons numeral_2_eq_2)
  have pre: "(2::nat) < length pages_2400
    \<and> (\<forall>j\<le>2. FetchPage backend_2400 j (1000 * int j) 1000 = Inr (pages_2400 ! j) \<and>
              has_rows (pages_2400 ! j))
    \<and> (\<forall>j<2. length (rows_of (pages_2400 ! j)) = 1000)
    \<and> length (rows_of (pages_2400 ! 2)) \<noteq> 1000"
    unfolding all_le all_lt nth2
    by (simp add: pages_2400_def backend_2400_def has_rows_def rows_of_def index_map_def)
  have "GetQueryResultSet 3 sample_lib backend_2400 ''q1'' 0 True =
     Some (Inr (Inr (Some [(''rows'', VList (concat (map rows_of (take (Suc 2) pages_2400)))),
                           (''columns'', first_columns (take (Suc 2) pages_2400))])),
           map (\<lambda>j. Fetched (1000 * int j) 1000) [0..<Suc 2])"
    using GetQueryResultSet_pages [of 2 pages_2400 backend_2400 3 sample_lib "''q1''" 0] pre
    by simp
  then show ?thesis
    by (simp add: pages_2400_def rows_of_def index_map_def three)
qed

text \<open>
  Claim C5 says that fetching stops after the first page with fewer rows than the page
  size, and that the columns are those of the first page. On a backend whose first page
  has 1000 rows and no columns, whose second has 1001 rows and whose third has 3, the
  second page ends the fetching, though no page so far had fewer than 1000 rows, and the
  columns returned are those of the second page.
\<close>

theorem GetQueryResultSet_oversized_page_counterexample:
  "FetchPage oversized 0 0 1000 = Inr [(''rows'', VList (block 1000))]
   \<and> FetchPage oversized 1 1000 1000 =
       Inr [(''columns'', one_column), (''rows'', VList (block 1001))]
   \<and> length (block 1001) = 1001
   \<and> GetQueryResultSet 3 sample_lib oversized ''q1'' 0 True =
       Some (Inr (Inr (Some [(''rows'', VList (block 1000 @ block 1001)),
                             (''columns'', one_column)])),
             [Fetched 0 1000, Fetched 1000 1000])"
proof -
  let ?pages = "[[(''rows'', VList (block 1000))],
                 [(''columns'', one_column), (''rows'', VList (block 1001))]]"
  have all_le: "(\<forall>j\<le>1. P j) \<longleftrightarrow> P 0 \<and> P (Suc 0)" for P :: "nat \<Rightarrow> bool"
    by (metis One_nat_def le_0_eq le_Suc_eq)
  have "GetQueryResultSet_loop 3 oversized 0 0 1000 VNil [] [] =
         Some (Inr (first_columns (take (Suc 1) ?pages),
                    concat (map rows_of (take (Suc 1) ?pages))),
               fetched 0 (Suc 1))"
    by (rule page_loop_result)
       (simp_all add: all_le oversized_def has_rows_def rows_of_def index_map_def)
  then show ?thesis
    by (simp add: GetQueryResultSet_def oversized_def rows_of_def index_map_def fetched_def)
qed

section \<open>Properties of the result decoder\<close>

subsection \<open>The conversion table\<close>

lemma converting_types_not_identity:
  "''String'' \<notin> set identity_types" "''Float'' \<notin> set identity_types"
  "''Double'' \<notin> set identity_types" "''Date'' \<notin> set identity_types"
  "''Datetime'' \<notin> set identity_types" "''Timestamp'' \<notin> set identity_types"
  by (simp_all add: identity_types_def)

lemma getConverter_String: "getConverter lib ''String'' = convertFromBase64 lib"
  by (simp add: getConverter_def converting_types_not_identity)

lemma getConverter_Float: "getConverter lib ''Float'' = convertFromFloat lib"
  by (simp add: getConverter_def converting_types_not_identity)

lemma getConverter_Double: "getConverter lib ''Double'' = convertFromFloat lib"
  by (simp add: getConverter_def converting_types_not_identity)

lemma getConverter_Date: "getConverter lib ''Date'' = convertFromDatetime lib"
  by (simp add: getConverter_def converting_types_not_identity)

lemma getConverter_Datetime: "getConverter lib ''Datetime'' = convertFromDatetime lib"
  by (simp add: getConverter_def converting_types_not_identity)

lemma getConverter_Timestamp: "getConverter lib ''Timestamp'' = convertFromDatetime lib"
  by (simp add: getConverter_def converting_types_not_identity)

lemma getConverter_other:
  "ty \<noteq> ''String'' \<Longrightarrow> ty \<noteq> ''Float'' \<Longrightarrow> ty \<noteq> ''Double'' \<Longrightarrow> ty \<noteq> ''Date'' \<Longrightarrow>
   ty \<noteq> ''Datetime'' \<Longrightarrow> ty \<noteq> ''Timestamp'' \<Longrightarrow> getConverter lib ty = (\<lambda>v. v)"
  by (simp add: getConverter_def)

lemma getConverter_cases:
  "getConverter lib ty = convertFromBase64 lib \<or> getConverter lib ty = convertFromFloat lib \<or>
   getConverter lib ty = convertFromDatetime lib \<or> getConverter lib ty = (\<lambda>v. v)"
  unfolding getConverter_def by (cases "ty \<in> set identity_types") (simp_all only: if_True if_False split: if_split, blast+)

lemma converters_keep_other_values:
  assumes "\<forall>s. v \<noteq> VString s"
  shows "convertFromBase64 lib v = v" "convertFromFloat lib v = v" "convertFromDatetime lib v = v"
  using assms
  by (cases v; simp add: convertFromBase64_def convertFromFloat_def convertFromDatetime_def)+

lemma getConverter_not_string:
  assumes "\<forall>s. v \<noteq> VString s"
  shows "getConverter lib ty v = v"
  using getConverter_cases [of lib ty] converters_keep_other_values [OF assms, of lib]
  by (elim disjE) simp_all

text \<open>
  Claim C6: the converter of a column follows the table. When the library decodes the
  base64 text \<^verbatim>\<open>aGVsbG8=\<close> to \<^verbatim>\<open>hello\<close>, a \<^verbatim>\<open>String\<close> cell holding it
  becomes \<^verbatim>\<open>hello\<close>; a \<^verbatim>\<open>Double\<close> cell holding the string \<^verbatim>\<open>3.14\<close> becomes
  the float the library parses from it; a \<^verbatim>\<open>Timestamp\<close> cell holding
  \<^verbatim>\<open>2024-01-01T00:00:00Z\<close> becomes the time the library parses from it. A column of any
  type outside \<^verbatim>\<open>String\<close>, \<^verbatim>\<open>Float\<close>, \<^verbatim>\<open>Double\<close>, \<^verbatim>\<open>Date\<close>,
  \<^verbatim>\<open>Datetime\<close> and \<^verbatim>\<open>Timestamp\<close>, so every unrecognised one, passes its cell
  through. A string cell of a converting column becomes what the library makes of it, and
  stays as it is when the library fails; a cell that is not a string stays as it is.
\<close>

theorem getConverter_table:
  "(DecodeString lib ''aGVsbG8='' = Some ''hello'' \<longrightarrow>
      getConverter lib ''String'' (VString ''aGVsbG8='') = VString ''hello'')
   \<and> (\<forall>f. ParseFloat lib ''3.14'' = Some f \<longrightarrow>
          getConverter lib ''Double'' (VString ''3.14'') = VFloat f)
   \<and> (\<forall>t. ParseRFC3339 lib ''2024-01-01T00:00:00Z'' = Some t \<longrightarrow>
          getConverter lib ''Timestamp'' (VString ''2024-01-01T00:00:00Z'') = VTime t)
   \<and> (\<forall>ty v. ty \<noteq> ''String'' \<and> ty \<noteq> ''Float'' \<and> ty \<noteq> ''Double'' \<and> ty \<noteq> ''Date'' \<and>
             ty \<noteq> ''Datetime'' \<and> ty \<noteq> ''Timestamp'' \<longrightarrow>
          getConverter lib ty v = v)
   \<and> (\<forall>s. getConverter lib ''String'' (VString s) =
          (case DecodeString lib s of None \<Rightarrow> VString s | Some decoded \<Rightarrow> VString decoded))
   \<and> (\<forall>ty s. ty = ''Float'' \<or> ty = ''Double'' \<longrightarrow>
          getConverter lib ty (VString s) =
            (case ParseFloat lib s of None \<Rightarrow> VString s | Some f \<Rightarrow> VFloat f))
   \<and> (\<forall>ty s. ty = ''Date'' \<or> ty = ''Datetime'' \<or> ty = ''Timestamp'' \<longrightarrow>
          getConverter lib ty (VString s) =
            (case ParseRFC3339 lib s of None \<Rightarrow> VString s | Some t \<Rightarrow> VTime t))
   \<and> (\<forall>ty v. (\<forall>s. v \<noteq> VString s) \<longrightarrow> getConverter lib ty v = v)"
proof -
  have b64: "\<forall>s. getConverter lib ''String'' (VString s) =
          (case DecodeString lib s of None \<Rightarrow> VString s | Some decoded \<Rightarrow> VString decoded)"
    by (simp add: getConverter_String convertFromBase64_def)
  have flt: "\<forall>ty s. ty = ''Float'' \<or> ty = ''Double'' \<longrightarrow>
          getConverter lib ty (VString s) =
            (case ParseFloat lib s of None \<Rightarrow> VString s | Some f \<Rightarrow> VFloat f)"
    using getConverter_Float [of lib] getConverter_Double [of lib]
    by (auto simp add: convertFromFloat_def)
  have dt: "\<forall>ty s. ty = ''Date'' \<or> ty = ''Datetime'' \<or> ty = ''Timestamp'' \<longrightarrow>
          getConverter lib ty (VString s) =
            (case ParseRFC3339 lib s of None \<Rightarrow> VString s | Some t \<Rightarrow> VTime t)"
    using getConverter_Date [of lib] getConverter_Datetime [of lib] getConverter_Timestamp [of lib]
    by (auto simp add: convertFromDatetime_def)
  have other: "\<forall>ty v. ty \<noteq> ''String'' \<and> ty \<noteq> ''Float'' \<and> ty \<noteq> ''Double'' \<and> ty \<noteq> ''Date'' \<and>
             ty \<noteq> ''Datetime'' \<and> ty \<noteq> ''Timestamp'' \<longrightarrow>
          getConverter lib ty v = v"
    by (simp add: getConverter_other)
  have hello: "DecodeString lib ''aGVsbG8='' = Some ''hello'' \<longrightarrow>
      getConverter lib ''String'' (VString ''aGVsbG8='') = VString ''hello''"
    by (simp add: getConverter_String convertFromBase64_def)
  have pi: "\<forall>f. ParseFloat lib ''3.14'' = Some f \<longrightarrow>
          getConverter lib ''Double'' (VString ''3.14'') = VFloat f"
    by (simp add: getConverter_Double convertFromFloat_def)
  have ts: "\<forall>t. ParseRFC3339 lib ''2024-01-01T00:00:00Z'' = Some t \<longrightarrow>
          getConverter lib ''Timestamp'' (VString ''2024-01-01T00:00:00Z'') = VTime t"
    by (simp add: getConverter_Timestamp convertFromDatetime_def)
  have nonstr: "\<forall>ty v. (\<forall>s. v \<noteq> VString s) \<longrightarrow> getConverter lib ty v = v"
    by (simp add: getConverter_not_string)
  show ?thesis
    by (intro conjI hello pi ts other b64 flt dt nonstr)
qed

theorem getConverter_table_witness:
  "getConverter sample_lib ''String'' (VString ''aGVsbG8='') = VString ''hello''
   \<and> getConverter sample_lib ''Double'' (VString ''3.14'') = VFloat 0x40091EB851EB851F
   \<and> getConverter sample_lib ''Timestamp'' (VString ''2024-01-01T00:00:00Z'') =
       VTime \<lparr>year = 2024, month = 1, day = 1, hour = 0, minute = 0, second = 0, nsec = 0,
              zone_offset = 0\<rparr>
   \<and> getConverter sample_lib ''Interval'' (VString ''P1D'') = VString ''P1D''
   \<and> getConverter sample_lib ''String'' (VString ''%%%'') = VString ''%%%''
   \<and> getConverter sample_lib ''Float'' (VString ''abc'') = VString ''abc''
   \<and> getConverter sample_lib ''Date'' (VString ''yesterday'') = VString ''yesterday''
   \<and> getConverter sample_lib ''String'' (VBool True) = VBool True"
proof -
  note t = getConverter_table [of sample_lib]
  note c1 = t [THEN conjunct1]
  note c2 = t [THEN conjunct2, THEN conjunct1]
  note c3 = t [THEN conjunct2, THEN conjunct2, THEN conjunct1]
  note c4 = t [THEN conjunct2, THEN conjunct2, THEN conjunct2, THEN conjunct1]
  note c5 = t [THEN conjunct2, THEN conjunct2, THEN conjunct2, THEN conjunct2, THEN conjunct1]
  note c6 = t [THEN conjunct2, THEN conjunct2, THEN conjunct2, THEN conjunct2, THEN conjunct2,
               THEN conjunct1]
  note c7 = t [THEN conjunct2, THEN conjunct2, THEN conjunct2, THEN conjunct2, THEN conjunct2,
               THEN conjunct2, THEN conjunct1]
  note c8 = t [THEN conjunct2, THEN conjunct2, THEN conjunct2, THEN conjunct2, THEN conjunct2,
               THEN conjunct2, THEN conjunct2]
  have a: "getConverter sample_lib ''String'' (VString ''aGVsbG8='') = VString ''hello''"
    using c1 by (simp add: sample_lib_def)
  have b: "getConverter sample_lib ''Double'' (VString ''3.14'') = VFloat 0x40091EB851EB851F"
    using c2 by (simp add: sample_lib_def)
  have c: "getConverter sample_lib ''Timestamp'' (VString ''2024-01-01T00:00:00Z'') =
       VTime \<lparr>year = 2024, month = 1, day = 1, hour = 0, minute = 0, second = 0, nsec = 0,
              zone_offset = 0\<rparr>"
    using c3 by (simp add: sample_lib_def)
  have d: "getConverter sample_lib ''Interval'' (VString ''P1D'') = VString ''P1D''"
    using c4 [rule_format, of "''Interval''" "VString ''P1D''"] by simp
  have e: "getConverter sample_lib ''String'' (VString ''%%%'') = VString ''%%%''"
    using c5 [rule_format, of "''%%%''"] by (simp add: sample_lib_def)
  have f: "getConverter sample_lib ''Float'' (VString ''abc'') = VString ''abc''"
    using c6 [rule_format, of "''Float''" "''abc''"] by (simp add: sample_lib_def)
  have g: "getConverter sample_lib ''Date'' (VString ''yesterday'') = VString ''yesterday''"
    using c7 [rule_format, of "''Date''" "''yesterday''"] by (simp add: sample_lib_def)
  have h: "getConverter sample_lib ''String'' (VBool True) = VBool True"
    using c8 [rule_format, of "VBool True" "''String''"] by simp
  show ?thesis
    by (intro conjI a b c d e f g h)
qed

subsection \<open>The cache\<close>















end
